theory Spec2Isabelle
  imports Main "HOL-Library.Word" "HOL-Library.Sublist" "HOL-Library.AList"
begin

unbundle bit_operations_syntax

section \<open>Python string helpers\<close>

text \<open>
  Strings are byte lists. \<open>str.lower()\<close> is modelled on the ASCII letters, which is all
  a UUID text can hold; \<open>s.replace("-", "")\<close> removes every dash; a slice \<open>s[a:-b]\<close>
  is \<open>drop a (take (length s - b) s)\<close>, which is empty when the bounds cross, as in Python.
\<close>

definition lower_char :: "char \<Rightarrow> char" where
  "lower_char c =
     (if 65 \<le> (of_char c :: nat) \<and> (of_char c :: nat) \<le> 90
      then char_of ((of_char c :: nat) + 32) else c)"

definition lower :: "string \<Rightarrow> string" where
  "lower s = map lower_char s"

definition remove_dashes :: "string \<Rightarrow> string" where
  "remove_dashes s = filter (\<lambda>c. c \<noteq> CHR ''-'') s"

definition startswith :: "string \<Rightarrow> string \<Rightarrow> bool" where
  "startswith s p = prefix p s"

definition endswith :: "string \<Rightarrow> string \<Rightarrow> bool" where
  "endswith s p = suffix p s"

definition slice_from_to_end :: "nat \<Rightarrow> nat \<Rightarrow> string \<Rightarrow> string" where
  "slice_from_to_end a b s = drop a (take (length s - b) s)"

section \<open>UUID normalisation (ble\_bridge.py, \_norm\_uuid)\<close>

text \<open>
  The argument of \<open>_norm_uuid\<close> is a \<open>bluetooth.UUID\<close> object of the runtime, or any
  other object: the function only looks at \<open>str(uuid)\<close>. The runtime prints a 16-bit
  UUID as \<open>UUID(0x2a9d)\<close> (two bytes, high byte first, two lowercase hex digits each) and
  a 128-bit UUID as \<open>UUID('12345678-1234-1234-1234-123456789abc')\<close> (sixteen bytes, a dash
  before bytes 4, 6, 8 and 10), the two forms that the comments of the source name.
  A string is its own \<open>str\<close>.
\<close>

datatype uuid = UUID16 "16 word" | UUID128 "8 word list" | UUIDText string

definition hex_digit :: "nat \<Rightarrow> char" where
  "hex_digit n = ''0123456789abcdef'' ! (n mod 16)"

definition hex2 :: "8 word \<Rightarrow> string" where
  "hex2 b = [hex_digit (unat b div 16), hex_digit (unat b mod 16)]"

fun uuid_bytes_text :: "nat \<Rightarrow> 8 word list \<Rightarrow> string" where
  "uuid_bytes_text i [] = []"
| "uuid_bytes_text i (b # bs) =
     (if i = 4 \<or> i = 6 \<or> i = 8 \<or> i = 10 then ''-'' else []) @ hex2 b @ uuid_bytes_text (Suc i) bs"

fun py_str :: "uuid \<Rightarrow> string" where
  "py_str (UUID16 w) =
     ''UUID(0x'' @ hex2 (ucast (drop_bit 8 w)) @ hex2 (ucast w) @ '')''"
| "py_str (UUID128 bs) = ''UUID('' @ [CHR 0x27] @ uuid_bytes_text 0 bs @ [CHR 0x27] @ '')''"
| "py_str (UUIDText s) = s"

definition BT_BASE_SUFFIX :: string where
  "BT_BASE_SUFFIX = ''00001000800000805f9b34fb''"

definition norm_uuid :: "uuid \<Rightarrow> string" where
  "norm_uuid u =
     (let s = py_str u in
      if startswith s ''UUID(0x'' \<and> endswith s '')''
      then ''0000'' @ lower (slice_from_to_end 7 1 s) @ BT_BASE_SUFFIX
      else if startswith s (''UUID('' @ [CHR 0x27]) \<and> endswith s ([CHR 0x27] @ '')'')
      then lower (remove_dashes (slice_from_to_end 6 2 s))
      else remove_dashes (lower s))"

text \<open>The inputs the contract is about: a 16-bit UUID, a 128-bit UUID of sixteen bytes,
  or a text of hex digits (either case) and dashes that holds 32 hex digits.\<close>

definition is_lower_hex :: "char \<Rightarrow> bool" where
  "is_lower_hex c = (c \<in> set ''0123456789abcdef'')"

definition is_hex :: "char \<Rightarrow> bool" where
  "is_hex c = (c \<in> set ''0123456789abcdefABCDEF'')"

fun valid_uuid :: "uuid \<Rightarrow> bool" where
  "valid_uuid (UUID16 w) = True"
| "valid_uuid (UUID128 bs) = (length bs = 16)"
| "valid_uuid (UUIDText s) =
     (list_all (\<lambda>c. is_hex c \<or> c = CHR ''-'') s \<and> length (remove_dashes s) = 32)"


section \<open>Advertisement parsing (ble\_bridge.py, the loop of scan over AD structures)\<close>

text \<open>
  Exceptions are values. \<open>IndexError\<close> is what indexing a \<open>bytes\<close> object out of range
  raises; the other constructors stand for the failures of the collaborators (radio,
  transport, JSON library), which the code only catches or lets through.
\<close>

datatype py_exception = IndexError | ValueError | KeyError | OSError | OtherError string

type_synonym byte = "8 word"

text \<open>The UTF-8 decoder of the runtime is a parameter: \<open>None\<close> is \<open>decode\<close> raising.\<close>

type_synonym decoder = "byte list \<Rightarrow> string option"

record ad_fields =
  ad_name :: string
  ad_services :: "string list"
  ad_mfr_id :: "nat option"
  ad_mfr_data :: "string option"

definition py_slice :: "nat \<Rightarrow> nat \<Rightarrow> 'a list \<Rightarrow> 'a list" where
  "py_slice a b xs = drop a (take b xs)"

definition bytes_hex :: "byte list \<Rightarrow> string" where
  "bytes_hex bs = concat (map hex2 bs)"

text \<open>
  \<open>for j in range(0, len(ad_payload) - 1, 2)\<close> visits the even offsets \<open>j\<close> with
  \<open>j + 1 < len(ad_payload)\<close>: the payload two bytes at a time, a last odd byte left out.
  \<open>"%04x" % (lo | hi << 8)\<close> is the high byte's two hex digits, then the low byte's.
\<close>

fun service_uuids :: "byte list \<Rightarrow> string list" where
  "service_uuids (lo # hi # rest) = (hex2 hi @ hex2 lo) # service_uuids rest"
| "service_uuids _ = []"

text \<open>One AD structure: the body of the loop after \<open>ad_payload\<close> is cut out.
  \<open>ad_payload[0]\<close> and \<open>ad_payload[1]\<close> raise when the payload is shorter.\<close>

definition ad_struct :: "decoder \<Rightarrow> byte \<Rightarrow> nat \<Rightarrow> byte list \<Rightarrow> ad_fields \<Rightarrow> py_exception + ad_fields" where
  "ad_struct dec ad_type len ad_payload st =
     (if ad_type = 0x09 \<or> ad_type = 0x08 then
        (case dec ad_payload of
           Some s \<Rightarrow> Inr (st\<lparr>ad_name := s\<rparr>)
         | None \<Rightarrow> Inr st)
      else if ad_type = 0x03 \<or> ad_type = 0x02 then
        Inr (st\<lparr>ad_services := ad_services st @ service_uuids ad_payload\<rparr>)
      else if ad_type = 0xFF \<and> len \<ge> 3 then
        (case ad_payload of
           [] \<Rightarrow> Inl IndexError
         | [b0] \<Rightarrow> Inl IndexError
         | b0 # b1 # rest \<Rightarrow>
             Inr (st\<lparr>ad_mfr_id := Some (unat b0 OR push_bit 8 (unat b1)),
                     ad_mfr_data := Some (bytes_hex rest)\<rparr>))
      else Inr st)"

function parse_loop :: "decoder \<Rightarrow> byte list \<Rightarrow> nat \<Rightarrow> ad_fields \<Rightarrow> py_exception + ad_fields" where
  "parse_loop dec raw i st =
     (if i < length raw then
        (if unat (raw ! i) = 0 then Inr st
         else if i + 1 \<ge> length raw then Inr st
         else (case ad_struct dec (raw ! (i + 1)) (unat (raw ! i))
                      (py_slice (i + 2) (i + 1 + unat (raw ! i)) raw) st of
                 Inl e \<Rightarrow> Inl e
               | Inr st' \<Rightarrow> parse_loop dec raw (i + unat (raw ! i) + 1) st'))
      else Inr st)"
  by pat_completeness auto
termination
  by (relation "measure (\<lambda>(dec, raw, i, st). length raw - i)") auto

declare parse_loop.simps [simp del]

definition no_fields :: ad_fields where
  "no_fields = \<lparr>ad_name = [], ad_services = [], ad_mfr_id = None, ad_mfr_data = None\<rparr>"

definition parse_ad :: "decoder \<Rightarrow> byte list \<Rightarrow> py_exception + ad_fields" where
  "parse_ad dec raw = parse_loop dec raw 0 no_fields"

text \<open>A decoder for concrete runs: it agrees with UTF-8 on 7-bit input and rejects the rest.\<close>

definition ascii_decode :: decoder where
  "ascii_decode bs =
     (if list_all (\<lambda>b. unat b < 128) bs then Some (map (\<lambda>b. char_of (unat b)) bs) else None)"

section \<open>Deduplication and the noise filter (ble\_bridge.py, scan)\<close>

record entry =
  address :: string
  name :: string
  rssi :: int
  services :: "string list"
  addr_type :: int
  manufacturer_id :: "nat option"
  manufacturer_data :: "string option"

text \<open>Python truth of an optional string (\<open>if mfr_data\<close>, \<open>v.get("manufacturer_data")\<close>):
  present and not empty.\<close>

definition truthy :: "string option \<Rightarrow> bool" where
  "truthy d = (case d of None \<Rightarrow> False | Some s \<Rightarrow> s \<noteq> [])"

definition hex_digit_upper :: "nat \<Rightarrow> char" where
  "hex_digit_upper n = ''0123456789ABCDEF'' ! (n mod 16)"

definition hex2_upper :: "byte \<Rightarrow> string" where
  "hex2_upper b = [hex_digit_upper (unat b div 16), hex_digit_upper (unat b mod 16)]"

fun join :: "string \<Rightarrow> string list \<Rightarrow> string" where
  "join sep [] = []"
| "join sep [x] = x"
| "join sep (x # y # ys) = x @ sep @ join sep (y # ys)"

definition mac_str :: "byte list \<Rightarrow> string" where
  "mac_str addr_bytes = join '':'' (map hex2_upper addr_bytes)"

text \<open>The branch \<open>if mac in seen\<close>: the three updates of the record already there.\<close>

definition merge_entry :: "entry \<Rightarrow> int \<Rightarrow> ad_fields \<Rightarrow> entry" where
  "merge_entry e r f =
     (let e1 = (if r > rssi e then e\<lparr>rssi := r\<rparr> else e);
          e2 = (if ad_name f \<noteq> [] \<and> name e1 = [] then e1\<lparr>name := ad_name f\<rparr> else e1)
      in if truthy (ad_mfr_data f) \<and> \<not> truthy (manufacturer_data e2)
         then e2\<lparr>manufacturer_id := ad_mfr_id f, manufacturer_data := ad_mfr_data f\<rparr>
         else e2)"

text \<open>The branch \<open>else\<close>: the record of an address seen for the first time.\<close>

definition new_entry :: "string \<Rightarrow> int \<Rightarrow> int \<Rightarrow> ad_fields \<Rightarrow> entry" where
  "new_entry mac at r f =
     (let e = \<lparr>address = mac, name = ad_name f, rssi = r, services = ad_services f,
               addr_type = at, manufacturer_id = None, manufacturer_data = None\<rparr>
      in if ad_mfr_id f \<noteq> None
         then e\<lparr>manufacturer_id := ad_mfr_id f, manufacturer_data := ad_mfr_data f\<rparr>
         else e)"

text \<open>\<open>seen\<close> is a dictionary from the address text to the record, kept as an association
  list with one pair per key; the order of \<open>seen.values()\<close> is not used by any statement.\<close>

type_synonym seen_map = "(string \<times> entry) list"

definition dedup_step :: "seen_map \<Rightarrow> string \<Rightarrow> int \<Rightarrow> int \<Rightarrow> ad_fields \<Rightarrow> seen_map" where
  "dedup_step seen mac at r f =
     (case map_of seen mac of
        Some e \<Rightarrow> AList.update mac (merge_entry e r f) seen
      | None \<Rightarrow> AList.update mac (new_entry mac at r f) seen)"

type_synonym raw_adv = "byte list \<times> int \<times> int \<times> byte list"

fun post_process :: "decoder \<Rightarrow> seen_map \<Rightarrow> raw_adv list \<Rightarrow> py_exception + seen_map" where
  "post_process dec seen [] = Inr seen"
| "post_process dec seen ((addr_bytes, at, r, raw) # rest) =
     (case parse_ad dec raw of
        Inl e \<Rightarrow> Inl e
      | Inr f \<Rightarrow> post_process dec (dedup_step seen (mac_str addr_bytes) at r f) rest)"

definition keep :: "entry \<Rightarrow> bool" where
  "keep v = (name v \<noteq> [] \<or> truthy (manufacturer_data v))"

definition scan_results :: "seen_map \<Rightarrow> entry list" where
  "scan_results seen = filter keep (map snd seen)"

section \<open>The raw buffer and the scan cycle (ble\_bridge.py, \_irq and scan)\<close>

definition MAX_SCAN_ENTRIES :: nat where
  "MAX_SCAN_ENTRIES = 200"

text \<open>The five components of the data of a scan-result event, in the order in which the
  handler unpacks them: the first is dropped, the others are stored.\<close>

type_synonym irq_data = "int \<times> byte list \<times> int \<times> int \<times> byte list"

definition irq :: "int \<Rightarrow> irq_data \<Rightarrow> raw_adv list \<Rightarrow> raw_adv list" where
  "irq event data raw_results =
     (if event = 5 then
        (if length raw_results < MAX_SCAN_ENTRIES then
           (case data of (u, addr, at, r, adv_data) \<Rightarrow> raw_results @ [(addr, at, r, adv_data)])
         else raw_results)
      else raw_results)"

definition collect :: "(int \<times> irq_data) list \<Rightarrow> raw_adv list" where
  "collect events = foldl (\<lambda>rs (event, data). irq event data rs) [] events"

text \<open>
  One scan cycle. The state is whether the radio is active. \<open>gap_scan\<close> is the radio's and may
  raise when the scan is started (its outcome is a parameter); stopping it is inside
  \<open>try/except\<close>. The events are those delivered while the cycle sleeps.
\<close>

record ble = active :: bool

definition scan :: "decoder \<Rightarrow> py_exception option \<Rightarrow> (int \<times> irq_data) list \<Rightarrow> ble
    \<Rightarrow> (py_exception + entry list) \<times> ble" where
  "scan dec gap_scan_start events b =
     (let b1 = b\<lparr>active := True\<rparr> in
      case gap_scan_start of
        Some e \<Rightarrow> (Inl e, b1)
      | None \<Rightarrow>
          (case post_process dec [] (collect events) of
             Inl e \<Rightarrow> (Inl e, b1)
           | Inr seen \<Rightarrow> (Inr (scan_results seen), b1\<lparr>active := False\<rparr>)))"

section \<open>The orchestrator (main.py)\<close>

text \<open>
  The process-wide flags are one record. What the handlers do to their collaborators is a
  log of calls, in order; what the collaborators answer is a parameter (\<open>world\<close>): the
  outcome of every call that can raise, the text of an exception, and the value of
  \<open>_busy\<close> that the scan loop leaves after each sleep of the busy wait (the handler
  yields there, and only the scan loop writes \<open>_busy\<close> besides the handler).
  A handler's result is \<open>None\<close> when it returns and \<open>Some e\<close> when it raises \<open>e\<close>, an
  exception of the class that \<open>except Exception\<close> catches.
\<close>

record bridge_state =
  busy :: bool
  scan_paused :: bool
  char_subscribed :: bool

datatype effect =
    Publish string string
  | Subscribe string
  | BridgeDisconnect
  | BridgeConnect string int
  | StartNotify string
  | BridgeWrite string string
  | BridgeRead string

type_synonym char_info = "string \<times> string list"

record world =
  json_address :: "string \<Rightarrow> py_exception + (string \<times> int)"
  json_dumps :: "char_info list \<Rightarrow> string"
  disconnect_out :: "py_exception option"
  connect_out :: "string \<Rightarrow> int \<Rightarrow> py_exception + char_info list"
  subscribe_out :: "string \<Rightarrow> py_exception option"
  start_notify_out :: "string \<Rightarrow> py_exception option"
  publish_out :: "string \<Rightarrow> string \<Rightarrow> py_exception option"
  write_out :: "string \<Rightarrow> string \<Rightarrow> py_exception option"
  read_out :: "string \<Rightarrow> py_exception + string"
  exc_text :: "py_exception \<Rightarrow> string"
  busy_after :: "nat \<Rightarrow> bool"

definition topic :: "string \<Rightarrow> string \<Rightarrow> string" where
  "topic base sfx = base @ ''/'' @ sfx"

text \<open>\<open>publish_error\<close> publishes on the error topic and swallows a failure of the publish.\<close>

definition publish_error :: "string \<Rightarrow> string \<Rightarrow> effect list" where
  "publish_error base message = [Publish (topic base ''error'') message]"

definition BUSY_MESSAGE :: string where
  "BUSY_MESSAGE = ''Busy '' @ [CHR 0xE2, CHR 0x80, CHR 0x94] @ '' another BLE operation is in progress''"

text \<open>
  \<open>for _ in range(60): if not _busy: break; await asyncio.sleep_ms(500)\<close>.
  \<open>busy_wait env k n b\<close>: \<open>n\<close> rounds are left, \<open>k\<close> sleeps are done, \<open>b\<close> is \<open>_busy\<close> now;
  the result is \<open>_busy\<close> when the loop is left.
\<close>

fun busy_wait :: "(nat \<Rightarrow> bool) \<Rightarrow> nat \<Rightarrow> nat \<Rightarrow> bool \<Rightarrow> bool" where
  "busy_wait env k 0 b = b"
| "busy_wait env k (Suc n) b = (if \<not> b then b else busy_wait env (Suc k) n (env k))"

fun start_notifies :: "world \<Rightarrow> char_info list \<Rightarrow> py_exception option \<times> effect list" where
  "start_notifies w [] = (None, [])"
| "start_notifies w ((u, props) # rest) =
     (if ''notify'' \<in> set props then
        (case start_notify_out w u of
           Some e \<Rightarrow> (Some e, [StartNotify u])
         | None \<Rightarrow> (case start_notifies w rest of (r, l) \<Rightarrow> (r, StartNotify u # l)))
      else start_notifies w rest)"

definition subscribe_chars :: "world \<Rightarrow> string \<Rightarrow> bridge_state
    \<Rightarrow> py_exception option \<times> bridge_state \<times> effect list" where
  "subscribe_chars w base st =
     (if \<not> char_subscribed st then
        (case subscribe_out w (topic base ''write/#'') of
           Some e \<Rightarrow> (Some e, st, [Subscribe (topic base ''write/#'')])
         | None \<Rightarrow>
             (case subscribe_out w (topic base ''read/#'') of
                Some e \<Rightarrow> (Some e, st, [Subscribe (topic base ''write/#''), Subscribe (topic base ''read/#'')])
              | None \<Rightarrow> (None, st\<lparr>char_subscribed := True\<rparr>,
                          [Subscribe (topic base ''write/#''), Subscribe (topic base ''read/#'')])))
      else (None, st, []))"

text \<open>The body of the \<open>try\<close> of \<open>handle_connect\<close>; \<open>Some e\<close> is the exception that leaves it.\<close>

definition connect_body :: "world \<Rightarrow> string \<Rightarrow> string \<Rightarrow> bridge_state
    \<Rightarrow> py_exception option \<times> bridge_state \<times> effect list" where
  "connect_body w base payload st =
     (case json_address w payload of
        Inl e \<Rightarrow> (Some e, st, [])
      | Inr (addr, at) \<Rightarrow>
          (case disconnect_out w of
             Some e \<Rightarrow> (Some e, st, [BridgeDisconnect])
           | None \<Rightarrow>
               (case connect_out w addr at of
                  Inl e \<Rightarrow> (Some e, st, [BridgeDisconnect, BridgeConnect addr at])
                | Inr chars \<Rightarrow>
                    (case subscribe_chars w base st of
                       (Some e, st', l) \<Rightarrow>
                         (Some e, st', [BridgeDisconnect, BridgeConnect addr at] @ l)
                     | (None, st', l) \<Rightarrow>
                         (case start_notifies w chars of
                            (Some e, l2) \<Rightarrow>
                              (Some e, st', [BridgeDisconnect, BridgeConnect addr at] @ l @ l2)
                          | (None, l2) \<Rightarrow>
                              (publish_out w (topic base ''connected'') (json_dumps w chars), st',
                               [BridgeDisconnect, BridgeConnect addr at] @ l @ l2
                                 @ [Publish (topic base ''connected'') (json_dumps w chars)]))))))"

definition handle_connect :: "world \<Rightarrow> string \<Rightarrow> string \<Rightarrow> bridge_state
    \<Rightarrow> py_exception option \<times> bridge_state \<times> effect list" where
  "handle_connect w base payload st =
     (let st1 = st\<lparr>scan_paused := True\<rparr>;
          b = busy_wait (busy_after w) 0 60 (busy st1)
      in if b then
           (None, st1\<lparr>busy := b, scan_paused := False\<rparr>, publish_error base BUSY_MESSAGE)
         else
           (case connect_body w base payload (st1\<lparr>busy := True\<rparr>) of
              (Some e, st3, l) \<Rightarrow> (Some e, st3\<lparr>scan_paused := False, busy := False\<rparr>, l)
            | (None, st3, l) \<Rightarrow> (None, st3\<lparr>busy := False\<rparr>, l)))"

definition handle_disconnect :: "world \<Rightarrow> string \<Rightarrow> bridge_state
    \<Rightarrow> py_exception option \<times> bridge_state \<times> effect list" where
  "handle_disconnect w base st =
     (case disconnect_out w of
        Some e \<Rightarrow> (Some e, st, [BridgeDisconnect])
      | None \<Rightarrow>
          (publish_out w (topic base ''disconnected'') [],
           st\<lparr>char_subscribed := False, scan_paused := False\<rparr>,
           [BridgeDisconnect, Publish (topic base ''disconnected'') []]))"

definition handle_write :: "world \<Rightarrow> string \<Rightarrow> string \<Rightarrow> bridge_state
    \<Rightarrow> py_exception option \<times> bridge_state \<times> effect list" where
  "handle_write w uuid_str payload st = (write_out w uuid_str payload, st, [BridgeWrite uuid_str payload])"

definition handle_read :: "world \<Rightarrow> string \<Rightarrow> string \<Rightarrow> bridge_state
    \<Rightarrow> py_exception option \<times> bridge_state \<times> effect list" where
  "handle_read w base uuid_str st =
     (case read_out w uuid_str of
        Inl e \<Rightarrow> (Some e, st, [BridgeRead uuid_str])
      | Inr data \<Rightarrow>
          (publish_out w (topic base (''read/'' @ uuid_str @ ''/response'')) data, st,
           [BridgeRead uuid_str, Publish (topic base (''read/'' @ uuid_str @ ''/response'')) data]))"

text \<open>Python's \<open>sub in s\<close> on strings.\<close>

fun str_contains :: "string \<Rightarrow> string \<Rightarrow> bool" where
  "str_contains sub [] = (sub = [])"
| "str_contains sub (c # cs) = (prefix sub (c # cs) \<or> str_contains sub cs)"

text \<open>One round of the inner loop of \<open>main\<close>: the message popped from the queue is routed,
  and an exception of the handler becomes one publish on the error topic.\<close>

definition dispatch :: "world \<Rightarrow> string \<Rightarrow> string \<times> string \<Rightarrow> bridge_state
    \<Rightarrow> bridge_state \<times> effect list" where
  "dispatch w base m st =
     (case m of (t, msg) \<Rightarrow>
       (case (if t = topic base ''connect'' then handle_connect w base msg st
              else if t = topic base ''disconnect'' then handle_disconnect w base st
              else if startswith t (topic base ''write/'') then
                handle_write w (drop (length (topic base ''write/'')) t) msg st
              else if startswith t (topic base ''read/'') then
                (if \<not> str_contains ''/response'' (drop (length (topic base ''read/'')) t)
                 then handle_read w base (drop (length (topic base ''read/'')) t) st
                 else (None, st, []))
              else (None, st, [])) of
          (Some e, st', l) \<Rightarrow> (st', l @ publish_error base (exc_text w e))
        | (None, st', l) \<Rightarrow> (st', l)))"

text \<open>A world for concrete runs: the JSON library reads the address out of
  \<open>connect_payload\<close> (the object with the one key \<open>address\<close>), raises \<open>KeyError\<close> on the
  empty object and \<open>ValueError\<close> on anything else; every other call succeeds, the device
  has one characteristic that notifies, and the scan loop never releases \<open>_busy\<close>.\<close>

definition connect_payload :: string where
  "connect_payload =
     ''{'' @ [CHR 0x22] @ ''address'' @ [CHR 0x22] @ '': '' @ [CHR 0x22] @ ''AA:BB:CC:DD:EE:FF''
       @ [CHR 0x22] @ ''}''"

definition calm_world :: world where
  "calm_world =
     \<lparr>json_address = (\<lambda>p. if p = connect_payload then Inr (''AA:BB:CC:DD:EE:FF'', 0)
                           else if p = ''{}'' then Inl KeyError
                           else Inl ValueError),
      json_dumps = (\<lambda>cs. ''{}''),
      disconnect_out = None,
      connect_out = (\<lambda>a t. Inr [(''00002a9d00001000800000805f9b34fb'', [''notify''])]),
      subscribe_out = (\<lambda>t. None),
      start_notify_out = (\<lambda>u. None),
      publish_out = (\<lambda>t p. None),
      write_out = (\<lambda>u p. None),
      read_out = (\<lambda>u. Inr ''data''),
      exc_text = (\<lambda>e. ''error''),
      busy_after = (\<lambda>k. True)\<rparr>"

section \<open>Notions used to state the properties\<close>

text \<open>The scan-result events (event code 5) of an event list, in arrival order, each as the
  tuple that the handler stores.\<close>

definition scan_result_events :: "(int \<times> irq_data) list \<Rightarrow> raw_adv list" where
  "scan_result_events events =
     map (\<lambda>(event, (u, addr, at, r, adv_data)). (addr, at, r, adv_data))
         (filter (\<lambda>(event, data). event = 5) events)"

text \<open>The offsets at which the loop of the parser reads an AD structure, from offset \<open>i\<close> on:
  the loop's own three guards and its own step, with the exception left out.\<close>

function ad_offsets :: "byte list \<Rightarrow> nat \<Rightarrow> nat list" where
  "ad_offsets raw i =
     (if i < length raw \<and> unat (raw ! i) \<noteq> 0 \<and> i + 1 < length raw
      then i # ad_offsets raw (i + unat (raw ! i) + 1)
      else [])"
  by pat_completeness auto
termination
  by (relation "measure (\<lambda>(raw, i). length raw - i)") auto

declare ad_offsets.simps [simp del]

text \<open>The outcome of a handler that raises \<open>e\<close> and leaves the scan neither paused nor
  the radio marked busy.\<close>

definition resumed_after :: "py_exception option \<times> bridge_state \<times> effect list \<Rightarrow> py_exception \<Rightarrow> bool" where
  "resumed_after res e = (case res of (r, st', l) \<Rightarrow> r = Some e \<and> \<not> scan_paused st' \<and> \<not> busy st')"

section \<open>Concrete inputs\<close>

text \<open>Worlds in which the scan loop releases \<open>_busy\<close> during the first sleep of the wait,
  and one of the calls of the Connect sequence fails.\<close>

definition released_world :: world where
  "released_world = calm_world\<lparr>busy_after := (\<lambda>k. False)\<rparr>"

definition teardown_fails :: world where
  "teardown_fails = released_world\<lparr>disconnect_out := Some OSError\<rparr>"

definition failing_world :: world where
  "failing_world = released_world\<lparr>connect_out := (\<lambda>a t. Inl OSError)\<rparr>"

definition write_subscribe_fails :: world where
  "write_subscribe_fails =
     released_world\<lparr>subscribe_out := (\<lambda>t. if t = ''ble/esp/write/#'' then Some OSError else None)\<rparr>"

definition read_subscribe_fails :: world where
  "read_subscribe_fails =
     released_world\<lparr>subscribe_out := (\<lambda>t. if t = ''ble/esp/read/#'' then Some OSError else None)\<rparr>"

definition notify_fails :: world where
  "notify_fails = released_world\<lparr>start_notify_out := (\<lambda>u. Some OSError)\<rparr>"

definition publish_fails :: world where
  "publish_fails = released_world\<lparr>publish_out := (\<lambda>t p. Some OSError)\<rparr>"

definition idle_state :: bridge_state where
  "idle_state = \<lparr>busy = True, scan_paused = False, char_subscribed = False\<rparr>"

text \<open>Two advertisements: one with a service list only, one with a name.\<close>

definition noise_events :: "(int \<times> irq_data) list" where
  "noise_events =
     [(5, (0, [0x11], 0, - 70, [0x03, 0x03, 0x0F, 0x18])),
      (5, (0, [0x22], 0, - 50, [0x03, 0x09, 0x53, 0x31]))]"

definition noise_entry :: entry where
  "noise_entry = \<lparr>address = ''11'', name = [], rssi = - 70, services = [''180f''], addr_type = 0,
                   manufacturer_id = None, manufacturer_data = None\<rparr>"

definition named_entry :: entry where
  "named_entry = \<lparr>address = ''22'', name = ''S1'', rssi = - 50, services = [], addr_type = 0,
                   manufacturer_id = None, manufacturer_data = None\<rparr>"

text \<open>250 scan-result events from 250 addresses.\<close>

definition many_events :: "(int \<times> irq_data) list" where
  "many_events = map (\<lambda>k. (5, (0, [of_nat k], 0, - 70, []))) [0..<250]"

section \<open>Properties of the UUID normaliser\<close>

lemma hex_digit_lower: "is_lower_hex (hex_digit n)"
proof -
  have "list_all is_lower_hex ''0123456789abcdef''" by (simp add: is_lower_hex_def)
  then have "\<forall>k < length ''0123456789abcdef''. is_lower_hex (''0123456789abcdef'' ! k)"
    unfolding list_all_length .
  moreover have "n mod 16 < length ''0123456789abcdef''" by simp
  ultimately show ?thesis unfolding hex_digit_def by blast
qed

lemma is_lower_hex_cases:
  "is_lower_hex c \<Longrightarrow> lower_char c = c \<and> c \<noteq> CHR ''-'' \<and> is_hex c"
  unfolding is_lower_hex_def is_hex_def lower_char_def by auto

lemma is_hex_lower: "is_hex c \<Longrightarrow> is_lower_hex (lower_char c)"
proof -
  have "list_all (\<lambda>c. is_lower_hex (lower_char c)) ''0123456789abcdefABCDEF''"
    by code_simp
  then show "is_hex c \<Longrightarrow> is_lower_hex (lower_char c)"
    unfolding is_hex_def list_all_iff by blast
qed

lemma lower_char_dash: "lower_char c = CHR ''-'' \<longleftrightarrow> c = CHR ''-''"
proof -
  have "char_of (of_char c + 32 :: nat) \<noteq> CHR ''-''" if "65 \<le> (of_char c :: nat)" "(of_char c :: nat) \<le> 90"
  proof
    assume "char_of (of_char c + 32 :: nat) = CHR ''-''"
    then have "of_char (char_of (of_char c + 32 :: nat)) = (of_char (CHR ''-'') :: nat)" by simp
    then have "(of_char c + 32) mod 256 = (45::nat)" by (simp add: of_char_of)
    with that show False by (simp add: mod_if split: if_splits)
  qed
  moreover have "(of_char (CHR ''-'') :: nat) = 45" by simp
  ultimately show ?thesis unfolding lower_char_def by (auto)
qed

lemma hex2_props: "length (hex2 b) = 2" "list_all is_lower_hex (hex2 b)"
  by (simp_all add: hex2_def hex_digit_lower)

lemma lower_id: "list_all is_lower_hex s \<Longrightarrow> lower s = s"
  by (induction s) (simp_all add: lower_def is_lower_hex_cases)

lemma remove_dashes_id: "list_all is_lower_hex s \<Longrightarrow> remove_dashes s = s"
  by (induction s) (simp_all add: remove_dashes_def is_lower_hex_cases)

lemma remove_dashes_append: "remove_dashes (a @ b) = remove_dashes a @ remove_dashes b"
  by (simp add: remove_dashes_def)

lemma uuid_bytes_text_plain:
  "remove_dashes (uuid_bytes_text i bs) = concat (map hex2 bs)"
proof (induction bs arbitrary: i)
  case Nil
  show ?case by (simp add: remove_dashes_def)
next
  case (Cons b bs)
  have "remove_dashes ''-'' = []" by (simp add: remove_dashes_def)
  moreover have "remove_dashes [] = []" by (simp add: remove_dashes_def)
  ultimately show ?case
    using Cons by (simp add: remove_dashes_append remove_dashes_id hex2_props)
qed

lemma concat_hex2: "length (concat (map hex2 bs)) = 2 * length bs"
  "list_all is_lower_hex (concat (map hex2 bs))"
  by (induction bs) (simp_all add: hex2_props)

lemma slice_mid: "slice_from_to_end (length p) (length q) (p @ m @ q) = m"
  by (simp add: slice_from_to_end_def)

lemma norm_uuid16:
  "norm_uuid (UUID16 w) = ''0000'' @ hex2 (ucast (drop_bit 8 w)) @ hex2 (ucast w) @ BT_BASE_SUFFIX"
proof -
  let ?h = "hex2 (ucast (drop_bit 8 w)) @ hex2 (ucast w)"
  have s: "py_str (UUID16 w) = ''UUID(0x'' @ ?h @ '')''" by simp
  have a: "startswith (''UUID(0x'' @ ?h @ '')'') ''UUID(0x''"
    unfolding startswith_def by simp
  have b: "endswith (''UUID(0x'' @ ?h @ '')'') '')''"
    unfolding endswith_def by (metis append.assoc suffixI)
  have c: "slice_from_to_end 7 1 (''UUID(0x'' @ ?h @ '')'') = ?h"
    by (simp add: slice_from_to_end_def)
  have d: "lower ?h = ?h"
    by (rule lower_id) (simp add: hex2_props)
  show ?thesis
    unfolding norm_uuid_def s Let_def using a b c d by simp
qed

lemma norm_uuid128:
  "norm_uuid (UUID128 bs) = concat (map hex2 bs)"
proof -
  let ?t = "uuid_bytes_text 0 bs"
  let ?p = "''UUID('' @ [CHR 0x27]"
  let ?q = "[CHR 0x27] @ '')''"
  have s: "py_str (UUID128 bs) = ?p @ ?t @ ?q" by simp
  have a: "\<not> startswith (?p @ ?t @ ?q) ''UUID(0x''"
    unfolding startswith_def by simp
  have a2: "startswith (?p @ ?t @ ?q) ?p"
    unfolding startswith_def by simp
  have b: "endswith (?p @ ?t @ ?q) ?q"
    unfolding endswith_def by (metis append.assoc suffixI)
  have c: "slice_from_to_end 6 2 (?p @ ?t @ ?q) = ?t"
    by (simp add: slice_from_to_end_def)
  have d: "lower (remove_dashes ?t) = concat (map hex2 bs)"
    by (simp add: uuid_bytes_text_plain lower_id concat_hex2)
  show ?thesis
    unfolding norm_uuid_def s Let_def using a a2 b c d by simp
qed

lemma remove_dashes_lower: "remove_dashes (lower s) = lower (remove_dashes s)"
  by (induction s) (simp_all add: remove_dashes_def lower_def lower_char_dash)

lemma norm_uuid_text:
  assumes "list_all (\<lambda>c. is_hex c \<or> c = CHR ''-'') s"
  shows "norm_uuid (UUIDText s) = lower (remove_dashes s)"
proof -
  have "s = [] \<or> hd s \<noteq> CHR ''U''"
    using assms by (cases s) (auto simp: is_hex_def)
  then have "\<not> startswith s ''UUID(0x''" "\<not> startswith s (''UUID('' @ [CHR 0x27])"
    unfolding startswith_def by (cases s; simp)+
  then show ?thesis
    unfolding norm_uuid_def Let_def by (simp add: remove_dashes_lower)
qed

lemma lower_hex_text:
  "list_all (\<lambda>c. is_hex c \<or> c = CHR ''-'') s \<Longrightarrow> list_all is_lower_hex (lower (remove_dashes s))"
  by (induction s) (auto simp: lower_def remove_dashes_def is_hex_lower)


text \<open>
  C1. Normalising the 16-bit UUID 0x2A9D gives \<open>00002a9d00001000800000805f9b34fb\<close>,
  normalising the text \<open>12345678-1234-1234-1234-123456789abc\<close> gives
  \<open>12345678123412341234123456789abc\<close>, and for every valid input (a 16-bit UUID, a 128-bit
  UUID of sixteen bytes, a text of hex digits and dashes with 32 hex digits) the result has
  32 characters, each a lowercase hex digit.
\<close>

theorem norm_uuid_contract:
  "norm_uuid (UUID16 0x2A9D) = ''00002a9d00001000800000805f9b34fb'' \<and>
   norm_uuid (UUIDText ''12345678-1234-1234-1234-123456789abc'') = ''12345678123412341234123456789abc'' \<and>
   (\<forall>u. valid_uuid u \<longrightarrow> length (norm_uuid u) = 32 \<and> list_all is_lower_hex (norm_uuid u))"
proof (intro conjI allI impI)
  show "norm_uuid (UUID16 0x2A9D) = ''00002a9d00001000800000805f9b34fb''" by code_simp
  show "norm_uuid (UUIDText ''12345678-1234-1234-1234-123456789abc'') = ''12345678123412341234123456789abc''"
    by code_simp
next
  fix u assume v: "valid_uuid u"
  show "length (norm_uuid u) = 32"
  proof (cases u)
    case (UUID16 w) then show ?thesis by (simp add: norm_uuid16 hex2_props BT_BASE_SUFFIX_def)
  next
    case (UUID128 bs) with v show ?thesis by (simp add: norm_uuid128 concat_hex2)
  next
    case (UUIDText s) with v show ?thesis by (simp add: norm_uuid_text lower_def)
  qed
  show "list_all is_lower_hex (norm_uuid u)"
  proof (cases u)
    case (UUID16 w)
    have "list_all is_lower_hex BT_BASE_SUFFIX"
      by (simp add: BT_BASE_SUFFIX_def is_lower_hex_def)
    moreover have "is_lower_hex CHR ''0''" by (simp add: is_lower_hex_def)
    ultimately show ?thesis using UUID16
      by (simp add: norm_uuid16 hex2_props)
  next
    case (UUID128 bs) with v show ?thesis by (simp add: norm_uuid128 concat_hex2)
  next
    case (UUIDText s) with v show ?thesis by (simp add: norm_uuid_text lower_hex_text)
  qed
qed

text \<open>The contract at the Battery Service UUID and at an uppercase 128-bit text.\<close>

theorem norm_uuid_contract_witness:
  "valid_uuid (UUID16 0x180F) \<and> length (norm_uuid (UUID16 0x180F)) = 32 \<and>
   list_all is_lower_hex (norm_uuid (UUID16 0x180F)) \<and>
   valid_uuid (UUIDText ''0000FFE0-0000-1000-8000-00805F9B34FB'') \<and>
   length (norm_uuid (UUIDText ''0000FFE0-0000-1000-8000-00805F9B34FB'')) = 32"
proof -
  have a: "valid_uuid (UUID16 0x180F)" by simp
  have b: "valid_uuid (UUIDText ''0000FFE0-0000-1000-8000-00805F9B34FB'')" by code_simp
  show ?thesis using a b norm_uuid_contract by blast
qed


section \<open>Properties of the advertisement parser\<close>

lemma parse_mfr_no_payload: "parse_ad dec [0x03, 0xFF] = Inl IndexError"
  unfolding parse_ad_def
  by (subst parse_loop.simps) (simp add: ad_struct_def py_slice_def)

lemma parse_mfr_one_byte: "parse_ad dec [0x03, 0xFF, 0x4C] = Inl IndexError"
  unfolding parse_ad_def
  by (subst parse_loop.simps) (simp add: ad_struct_def py_slice_def)

text \<open>
  C2. The loop over the AD structures always terminates (\<open>parse_loop\<close> is a total function),
  but it does not always return: a Manufacturer Specific Data structure (type 0xFF) whose
  length byte is at least 3 and whose payload is cut off by the end of the advertisement
  before its second byte makes \<open>ad_payload[0]\<close> or \<open>ad_payload[1]\<close> raise \<open>IndexError\<close>.
  The payloads \<open>03 FF\<close> and \<open>03 FF 4C\<close> are such inputs.
\<close>

theorem parse_truncated_mfr_raises:
  "parse_ad dec [0x03, 0xFF] = Inl IndexError \<and> parse_ad dec [0x03, 0xFF, 0x4C] = Inl IndexError"
  using parse_mfr_no_payload parse_mfr_one_byte by simp

text \<open>
  Every other AD type is safe: a payload without the byte 0xFF is parsed to the end.
\<close>

lemma ad_struct_other_ok: "t \<noteq> 0xFF \<Longrightarrow> \<exists>st'. ad_struct dec t len p st = Inr st'"
  by (simp add: ad_struct_def split: option.splits)

lemma parse_loop_without_mfr:
  "0xFF \<notin> set raw \<Longrightarrow> \<exists>f. parse_loop dec raw i st = Inr f"
proof (induction dec raw i st rule: parse_loop.induct)
  case (1 dec raw i st)
  show ?case
  proof (cases "i < length raw \<and> unat (raw ! i) \<noteq> 0 \<and> i + 1 < length raw")
    case False
    then have "parse_loop dec raw i st = Inr st"
      by (subst parse_loop.simps) auto
    then show ?thesis by simp
  next
    case True
    then have "raw ! (i + 1) \<in> set raw" by simp
    with "1.prems" have "raw ! (i + 1) \<noteq> 0xFF" by metis
    then obtain st' where s: "ad_struct dec (raw ! (i + 1)) (unat (raw ! i))
        (py_slice (i + 2) (i + 1 + unat (raw ! i)) raw) st = Inr st'"
      using ad_struct_other_ok by blast
    have "\<exists>f. parse_loop dec raw (i + unat (raw ! i) + 1) st' = Inr f"
      using "1.IH" [of st'] True s "1.prems" by simp
    moreover have "parse_loop dec raw i st = parse_loop dec raw (i + unat (raw ! i) + 1) st'"
      using True s by (subst parse_loop.simps) simp
    ultimately show ?thesis by simp
  qed
qed

text \<open>
  C3, as stated, fails: the structure \<open>03 FF 01 00\<close> has two payload bytes after the type
  byte, and the parser records the manufacturer id 1 and the (empty) manufacturer data.
\<close>

theorem mfr_two_payload_bytes_counterexample:
  "parse_ad ascii_decode [0x03, 0xFF, 0x01, 0x00]
     = Inr \<lparr>ad_name = [], ad_services = [], ad_mfr_id = Some 1, ad_mfr_data = Some []\<rparr>"
  by code_simp

lemma ad_struct_mfr:
  assumes "ad_struct dec t len p st = Inr st'"
    and "ad_mfr_id st' \<noteq> None \<or> ad_mfr_data st' \<noteq> None"
  shows "(ad_mfr_id st \<noteq> None \<or> ad_mfr_data st \<noteq> None) \<or> (t = 0xFF \<and> 3 \<le> len \<and> 2 \<le> length p)"
  using assms
  by (auto simp: ad_struct_def split: if_splits option.splits list.splits)

lemma py_slice_two:
  "2 \<le> length (py_slice (i + 2) (i + 1 + n) raw) \<Longrightarrow> i + 3 < length raw"
  by (simp add: py_slice_def)

lemma parse_loop_mfr:
  "parse_loop dec raw i st = Inr f \<Longrightarrow> ad_mfr_id f \<noteq> None \<or> ad_mfr_data f \<noteq> None \<Longrightarrow>
   (ad_mfr_id st \<noteq> None \<or> ad_mfr_data st \<noteq> None) \<or>
   (\<exists>j \<in> set (ad_offsets raw i). raw ! (j + 1) = 0xFF \<and> 3 \<le> unat (raw ! j) \<and> j + 3 < length raw)"
proof (induction dec raw i st rule: parse_loop.induct)
  case (1 dec raw i st)
  show ?case
  proof (cases "i < length raw \<and> unat (raw ! i) \<noteq> 0 \<and> i + 1 < length raw")
    case False
    then have "parse_loop dec raw i st = Inr st"
      by (subst parse_loop.simps) auto
    with "1.prems" show ?thesis by simp
  next
    case True
    let ?n = "unat (raw ! i)"
    let ?p = "py_slice (i + 2) (i + 1 + ?n) raw"
    have unf: "parse_loop dec raw i st =
        (case ad_struct dec (raw ! (i + 1)) ?n ?p st of
           Inl e \<Rightarrow> Inl e
         | Inr st' \<Rightarrow> parse_loop dec raw (i + ?n + 1) st')"
      using True by (subst parse_loop.simps) simp
    with "1.prems"(1) obtain st' where s: "ad_struct dec (raw ! (i + 1)) ?n ?p st = Inr st'"
      and rest: "parse_loop dec raw (i + ?n + 1) st' = Inr f"
      by (auto split: sum.splits)
    have offs: "ad_offsets raw i = i # ad_offsets raw (i + ?n + 1)"
      using True by (subst ad_offsets.simps) simp
    have "(ad_mfr_id st' \<noteq> None \<or> ad_mfr_data st' \<noteq> None) \<or>
      (\<exists>j \<in> set (ad_offsets raw (i + ?n + 1)). raw ! (j + 1) = 0xFF \<and> 3 \<le> unat (raw ! j) \<and> j + 3 < length raw)"
      using "1.IH" [of st'] True s rest "1.prems"(2) by simp
    then show ?thesis
    proof
      assume "ad_mfr_id st' \<noteq> None \<or> ad_mfr_data st' \<noteq> None"
      from ad_struct_mfr [OF s this] show ?thesis
      proof
        assume "ad_mfr_id st \<noteq> None \<or> ad_mfr_data st \<noteq> None"
        then show ?thesis by simp
      next
        assume a: "raw ! (i + 1) = 0xFF \<and> 3 \<le> ?n \<and> 2 \<le> length ?p"
        then have "i + 3 < length raw" using py_slice_two by blast
        with a have "\<exists>j \<in> set (ad_offsets raw i). raw ! (j + 1) = 0xFF \<and> 3 \<le> unat (raw ! j) \<and> j + 3 < length raw"
          unfolding offs by simp
        then show ?thesis by simp
      qed
    next
      assume "\<exists>j \<in> set (ad_offsets raw (i + ?n + 1)). raw ! (j + 1) = 0xFF \<and> 3 \<le> unat (raw ! j) \<and> j + 3 < length raw"
      then have "\<exists>j \<in> set (ad_offsets raw i). raw ! (j + 1) = 0xFF \<and> 3 \<le> unat (raw ! j) \<and> j + 3 < length raw"
        unfolding offs by simp
      then show ?thesis by simp
    qed
  qed
qed

text \<open>
  C3, amended. When the parser returns with a manufacturer id or manufacturer data
  recorded, one of the structures it read has type 0xFF, a length byte of at least 3, and
  at least two payload bytes inside the advertisement (the two id bytes; the data after them
  may be empty). An 0xFF structure whose length byte is below 3, that is with fewer than two
  payload bytes, records nothing.
\<close>

theorem mfr_recorded_only_from_length_3:
  "(parse_ad dec raw = Inr f \<and> (ad_mfr_id f \<noteq> None \<or> ad_mfr_data f \<noteq> None) \<longrightarrow>
      (\<exists>j \<in> set (ad_offsets raw 0).
          raw ! (j + 1) = 0xFF \<and> 3 \<le> unat (raw ! j) \<and> j + 3 < length raw)) \<and>
   (len < 3 \<longrightarrow> ad_struct dec 0xFF len p st = Inr st)"
proof (intro conjI impI)
  assume a: "parse_ad dec raw = Inr f \<and> (ad_mfr_id f \<noteq> None \<or> ad_mfr_data f \<noteq> None)"
  then have "parse_loop dec raw 0 no_fields = Inr f" by (simp add: parse_ad_def)
  from parse_loop_mfr [OF this] a
  show "\<exists>j \<in> set (ad_offsets raw 0). raw ! (j + 1) = 0xFF \<and> 3 \<le> unat (raw ! j) \<and> j + 3 < length raw"
    by (simp add: no_fields_def)
next
  assume "len < 3"
  then show "ad_struct dec 0xFF len p st = Inr st" by (simp add: ad_struct_def)
qed

text \<open>The rule at a flags structure followed by a manufacturer structure with two data bytes, and at an 0xFF structure of length 2.\<close>

theorem mfr_recorded_only_from_length_3_witness:
  "parse_ad ascii_decode [0x02, 0x01, 0x06, 0x05, 0xFF, 0x57, 0x01, 0xBE, 0xEF]
     = Inr \<lparr>ad_name = [], ad_services = [], ad_mfr_id = Some 343, ad_mfr_data = Some ''beef''\<rparr> \<and>
   (\<exists>j \<in> set (ad_offsets [0x02, 0x01, 0x06, 0x05, 0xFF, 0x57, 0x01, 0xBE, 0xEF] 0).
      [0x02, 0x01, 0x06, 0x05, 0xFF, 0x57, 0x01, 0xBE, 0xEF :: byte] ! (j + 1) = 0xFF \<and>
      3 \<le> unat ([0x02, 0x01, 0x06, 0x05, 0xFF, 0x57, 0x01, 0xBE, 0xEF :: byte] ! j) \<and>
      j + 3 < length [0x02, 0x01, 0x06, 0x05, 0xFF, 0x57, 0x01, 0xBE, 0xEF :: byte]) \<and>
   (2::nat) < 3 \<and>
   ad_struct ascii_decode 0xFF 2 [0x57] no_fields = Inr no_fields"
proof -
  let ?raw = "[0x02, 0x01, 0x06, 0x05, 0xFF, 0x57, 0x01, 0xBE, 0xEF :: byte]"
  let ?f = "\<lparr>ad_name = [], ad_services = [], ad_mfr_id = Some 343, ad_mfr_data = Some ''beef''\<rparr>"
  have a: "parse_ad ascii_decode ?raw = Inr ?f" by code_simp
  have b: "ad_mfr_id ?f \<noteq> None \<or> ad_mfr_data ?f \<noteq> None" by simp
  have c: "(2::nat) < 3" by simp
  show ?thesis
    using a b c mfr_recorded_only_from_length_3 [of ascii_decode ?raw ?f 2 "[0x57]" no_fields]
    by blast
qed

section \<open>Properties of the deduplication and of the noise filter\<close>

lemma merge_entry_fields:
  "rssi (merge_entry e r f) = max (rssi e) r"
  "name (merge_entry e r f) = (if name e = [] \<and> ad_name f \<noteq> [] then ad_name f else name e)"
  "(manufacturer_id (merge_entry e r f), manufacturer_data (merge_entry e r f)) =
     (if \<not> truthy (manufacturer_data e) \<and> truthy (ad_mfr_data f)
      then (ad_mfr_id f, ad_mfr_data f)
      else (manufacturer_id e, manufacturer_data e))"
  by (simp_all add: merge_entry_def Let_def max_def)

text \<open>
  The parser sets the manufacturer id and the manufacturer data together: one is recorded
  exactly when the other is.
\<close>

lemma ad_struct_mfr_both:
  assumes "ad_struct dec t len p st = Inr st'"
    and "ad_mfr_id st = None \<longleftrightarrow> ad_mfr_data st = None"
  shows "ad_mfr_id st' = None \<longleftrightarrow> ad_mfr_data st' = None"
  using assms
  by (auto simp: ad_struct_def split: if_splits option.splits list.splits)

lemma parse_loop_mfr_both:
  "parse_loop dec raw i st = Inr f \<Longrightarrow> (ad_mfr_id st = None \<longleftrightarrow> ad_mfr_data st = None) \<Longrightarrow>
   (ad_mfr_id f = None \<longleftrightarrow> ad_mfr_data f = None)"
proof (induction dec raw i st rule: parse_loop.induct)
  case (1 dec raw i st)
  show ?case
  proof (cases "i < length raw \<and> unat (raw ! i) \<noteq> 0 \<and> i + 1 < length raw")
    case False
    then have "parse_loop dec raw i st = Inr st"
      by (subst parse_loop.simps) auto
    with "1.prems" show ?thesis by simp
  next
    case True
    let ?n = "unat (raw ! i)"
    let ?p = "py_slice (i + 2) (i + 1 + ?n) raw"
    have "parse_loop dec raw i st =
        (case ad_struct dec (raw ! (i + 1)) ?n ?p st of
           Inl e \<Rightarrow> Inl e
         | Inr st' \<Rightarrow> parse_loop dec raw (i + ?n + 1) st')"
      using True by (subst parse_loop.simps) simp
    with "1.prems"(1) obtain st' where s: "ad_struct dec (raw ! (i + 1)) ?n ?p st = Inr st'"
      and rest: "parse_loop dec raw (i + ?n + 1) st' = Inr f"
      by (auto split: sum.splits)
    have "ad_mfr_id st' = None \<longleftrightarrow> ad_mfr_data st' = None"
      using ad_struct_mfr_both [OF s "1.prems"(2)] .
    then show ?thesis
      using "1.IH" [of st'] True s rest by simp
  qed
qed

lemma parse_ad_mfr_both:
  "parse_ad dec raw = Inr f \<Longrightarrow> (ad_mfr_id f = None \<longleftrightarrow> ad_mfr_data f = None)"
  unfolding parse_ad_def using parse_loop_mfr_both [of dec raw 0 no_fields f]
  by (simp add: no_fields_def)

lemma new_entry_fields:
  "address (new_entry mac at r f) = mac"
  "addr_type (new_entry mac at r f) = at"
  "services (new_entry mac at r f) = ad_services f"
  "rssi (new_entry mac at r f) = r"
  "name (new_entry mac at r f) = ad_name f"
  "(ad_mfr_id f = None \<longleftrightarrow> ad_mfr_data f = None) \<Longrightarrow>
     manufacturer_id (new_entry mac at r f) = ad_mfr_id f \<and>
     manufacturer_data (new_entry mac at r f) = ad_mfr_data f"
  by (auto simp: new_entry_def Let_def)

lemma merge_entry_kept:
  "address (merge_entry e r f) = address e"
  "addr_type (merge_entry e r f) = addr_type e"
  "services (merge_entry e r f) = services e"
  by (simp_all add: merge_entry_def Let_def)

lemma dedup_existing:
  assumes a: "map_of seen mac = Some e"
  shows "map fst (dedup_step seen mac at r f) = map fst seen"
    and "map_of (dedup_step seen mac at r f) mac = Some (merge_entry e r f)"
proof -
  have step: "dedup_step seen mac at r f = AList.update mac (merge_entry e r f) seen"
    using a by (simp add: dedup_step_def)
  from a have "mac \<in> fst ` set seen" by (metis domI dom_map_of_conv_image_fst)
  then show "map fst (dedup_step seen mac at r f) = map fst seen"
    unfolding step by (simp add: update_keys)
  show "map_of (dedup_step seen mac at r f) mac = Some (merge_entry e r f)"
    unfolding step by (simp add: update_conv')
qed

lemma dedup_first:
  assumes a: "map_of seen mac = None"
  shows "map fst (dedup_step seen mac at r f) = map fst seen @ [mac]"
    and "map_of (dedup_step seen mac at r f) mac = Some (new_entry mac at r f)"
proof -
  have step: "dedup_step seen mac at r f = AList.update mac (new_entry mac at r f) seen"
    using a by (simp add: dedup_step_def)
  from a have "mac \<notin> fst ` set seen" by (simp add: map_of_eq_None_iff)
  then show "map fst (dedup_step seen mac at r f) = map fst seen @ [mac]"
    unfolding step by (simp add: update_keys)
  show "map_of (dedup_step seen mac at r f) mac = Some (new_entry mac at r f)"
    unfolding step by (simp add: update_conv')
qed

lemma dedup_pair:
  assumes p1: "parse_ad dec raw1 = Inr f1" and p2: "parse_ad dec raw2 = Inr f2"
    and fresh: "map_of seen (mac_str addr) = None"
  shows "\<exists>seen' e'.
      post_process dec seen [(addr, at1, r1, raw1), (addr, at2, r2, raw2)] = Inr seen' \<and>
      map fst seen' = map fst seen @ [mac_str addr] \<and>
      map_of seen' (mac_str addr) = Some e' \<and>
      address e' = mac_str addr \<and> addr_type e' = at1 \<and> services e' = ad_services f1 \<and>
      rssi e' = max r1 r2 \<and>
      name e' = (if ad_name f1 = [] \<and> ad_name f2 \<noteq> [] then ad_name f2 else ad_name f1) \<and>
      (manufacturer_id e', manufacturer_data e') =
        (if \<not> truthy (ad_mfr_data f1) \<and> truthy (ad_mfr_data f2)
         then (ad_mfr_id f2, ad_mfr_data f2)
         else (ad_mfr_id f1, ad_mfr_data f1))"
proof -
  let ?mac = "mac_str addr"
  let ?s1 = "dedup_step seen ?mac at1 r1 f1"
  let ?e1 = "new_entry ?mac at1 r1 f1"
  let ?s2 = "dedup_step ?s1 ?mac at2 r2 f2"
  let ?e2 = "merge_entry ?e1 r2 f2"
  have pp: "post_process dec seen [(addr, at1, r1, raw1), (addr, at2, r2, raw2)] = Inr ?s2"
    using p1 p2 by simp
  have s1: "map_of ?s1 ?mac = Some ?e1" and k1: "map fst ?s1 = map fst seen @ [?mac]"
    using dedup_first [OF fresh] by simp_all
  have s2: "map_of ?s2 ?mac = Some ?e2" and k2: "map fst ?s2 = map fst ?s1"
    using dedup_existing [OF s1] by simp_all
  have m1: "manufacturer_id ?e1 = ad_mfr_id f1" "manufacturer_data ?e1 = ad_mfr_data f1"
    using new_entry_fields(6) [OF parse_ad_mfr_both [OF p1]] by simp_all
  have "address ?e2 = ?mac" "addr_type ?e2 = at1" "services ?e2 = ad_services f1"
    by (simp_all add: merge_entry_kept new_entry_fields)
  moreover have "rssi ?e2 = max r1 r2"
    by (simp add: merge_entry_fields(1) new_entry_fields)
  moreover have "name ?e2 = (if ad_name f1 = [] \<and> ad_name f2 \<noteq> [] then ad_name f2 else ad_name f1)"
    by (simp add: merge_entry_fields(2) new_entry_fields)
  moreover have "(manufacturer_id ?e2, manufacturer_data ?e2) =
        (if \<not> truthy (ad_mfr_data f1) \<and> truthy (ad_mfr_data f2)
         then (ad_mfr_id f2, ad_mfr_data f2)
         else (ad_mfr_id f1, ad_mfr_data f1))"
    using merge_entry_fields(3) [of ?e1 r2 f2] by (simp add: m1)
  ultimately show ?thesis
    using pp s2 k1 k2 by (intro exI [of _ ?s2] exI [of _ ?e2]) simp
qed

text \<open>
  C4. For every pair of advertisements from one address that are parsed in this order,
  the first for an address not seen before, the cycle holds one record for the address:
  its RSSI is the higher of the two, its name is the second one exactly when the first name
  is empty and the second is not, and its manufacturer id and data are the second ones exactly
  when the first advertisement has no manufacturer data and the second has some (as the code
  tests it: a hex string that is present and not empty); address, address type and services
  are those of the first. The same rule holds for an advertisement that meets any record
  already there. The two advertisements of the example merge to the record of the example.
\<close>

theorem dedup_merge_rule:
  "(parse_ad dec raw1 = Inr f1 \<and> parse_ad dec raw2 = Inr f2 \<and> map_of seen0 (mac_str addr) = None \<longrightarrow>
      (\<exists>seen' e'.
         post_process dec seen0 [(addr, at1, r1, raw1), (addr, at2, r2, raw2)] = Inr seen' \<and>
         map fst seen' = map fst seen0 @ [mac_str addr] \<and>
         map_of seen' (mac_str addr) = Some e' \<and>
         address e' = mac_str addr \<and> addr_type e' = at1 \<and> services e' = ad_services f1 \<and>
         rssi e' = max r1 r2 \<and>
         name e' = (if ad_name f1 = [] \<and> ad_name f2 \<noteq> [] then ad_name f2 else ad_name f1) \<and>
         (manufacturer_id e', manufacturer_data e') =
           (if \<not> truthy (ad_mfr_data f1) \<and> truthy (ad_mfr_data f2)
            then (ad_mfr_id f2, ad_mfr_data f2)
            else (ad_mfr_id f1, ad_mfr_data f1)))) \<and>
   (map_of seen mac = Some e \<longrightarrow>
      map fst (dedup_step seen mac at r f) = map fst seen \<and>
      (\<exists>e'. map_of (dedup_step seen mac at r f) mac = Some e' \<and>
         rssi e' = max (rssi e) r \<and>
         name e' = (if name e = [] \<and> ad_name f \<noteq> [] then ad_name f else name e) \<and>
         (manufacturer_id e', manufacturer_data e') =
           (if \<not> truthy (manufacturer_data e) \<and> truthy (ad_mfr_data f)
            then (ad_mfr_id f, ad_mfr_data f)
            else (manufacturer_id e, manufacturer_data e)))) \<and>
   dedup_step (dedup_step [] ''AA'' 0 (- 80) no_fields) ''AA'' 0 (- 60)
       \<lparr>ad_name = ''Scale1'', ad_services = [], ad_mfr_id = Some 1, ad_mfr_data = Some ''beef''\<rparr>
     = [(''AA'', \<lparr>address = ''AA'', name = ''Scale1'', rssi = - 60, services = [], addr_type = 0,
                  manufacturer_id = Some 1, manufacturer_data = Some ''beef''\<rparr>)]"
proof (intro conjI impI)
  assume "parse_ad dec raw1 = Inr f1 \<and> parse_ad dec raw2 = Inr f2 \<and> map_of seen0 (mac_str addr) = None"
  then show "\<exists>seen' e'.
         post_process dec seen0 [(addr, at1, r1, raw1), (addr, at2, r2, raw2)] = Inr seen' \<and>
         map fst seen' = map fst seen0 @ [mac_str addr] \<and>
         map_of seen' (mac_str addr) = Some e' \<and>
         address e' = mac_str addr \<and> addr_type e' = at1 \<and> services e' = ad_services f1 \<and>
         rssi e' = max r1 r2 \<and>
         name e' = (if ad_name f1 = [] \<and> ad_name f2 \<noteq> [] then ad_name f2 else ad_name f1) \<and>
         (manufacturer_id e', manufacturer_data e') =
           (if \<not> truthy (ad_mfr_data f1) \<and> truthy (ad_mfr_data f2)
            then (ad_mfr_id f2, ad_mfr_data f2)
            else (ad_mfr_id f1, ad_mfr_data f1))"
    using dedup_pair [of dec raw1 f1 raw2 f2 seen0 addr at1 r1 at2 r2] by blast
next
  assume a: "map_of seen mac = Some e"
  show "map fst (dedup_step seen mac at r f) = map fst seen"
    using dedup_existing(1) [OF a] .
  show "\<exists>e'. map_of (dedup_step seen mac at r f) mac = Some e' \<and>
         rssi e' = max (rssi e) r \<and>
         name e' = (if name e = [] \<and> ad_name f \<noteq> [] then ad_name f else name e) \<and>
         (manufacturer_id e', manufacturer_data e') =
           (if \<not> truthy (manufacturer_data e) \<and> truthy (ad_mfr_data f)
            then (ad_mfr_id f, ad_mfr_data f)
            else (manufacturer_id e, manufacturer_data e))"
    using dedup_existing(2) [OF a, of at r f] merge_entry_fields [of e r f] by blast
next
  show "dedup_step (dedup_step [] ''AA'' 0 (- 80) no_fields) ''AA'' 0 (- 60)
       \<lparr>ad_name = ''Scale1'', ad_services = [], ad_mfr_id = Some 1, ad_mfr_data = Some ''beef''\<rparr>
     = [(''AA'', \<lparr>address = ''AA'', name = ''Scale1'', rssi = - 60, services = [], addr_type = 0,
                  manufacturer_id = Some 1, manufacturer_data = Some ''beef''\<rparr>)]"
    by (simp add: dedup_step_def new_entry_def merge_entry_def no_fields_def truthy_def)
qed


text \<open>The rule at two advertisements that both carry manufacturer data, the weaker one also a
  name, and at a weaker advertisement that meets a record without manufacturer data.\<close>

theorem dedup_merge_rule_witness:
  "parse_ad ascii_decode [0x04, 0xFF, 0x01, 0x00, 0xAA]
     = Inr \<lparr>ad_name = [], ad_services = [], ad_mfr_id = Some 1, ad_mfr_data = Some ''aa''\<rparr> \<and>
   parse_ad ascii_decode [0x04, 0xFF, 0x02, 0x00, 0xBB, 0x03, 0x09, 0x53, 0x31]
     = Inr \<lparr>ad_name = ''S1'', ad_services = [], ad_mfr_id = Some 2, ad_mfr_data = Some ''bb''\<rparr> \<and>
   map_of ([] :: seen_map) (mac_str [0xAA]) = None \<and>
   (\<exists>seen' e'.
      post_process ascii_decode []
          [([0xAA], 0, - 60, [0x04, 0xFF, 0x01, 0x00, 0xAA]),
           ([0xAA], 0, - 80, [0x04, 0xFF, 0x02, 0x00, 0xBB, 0x03, 0x09, 0x53, 0x31])] = Inr seen' \<and>
      map fst seen' = [''AA''] \<and> map_of seen' ''AA'' = Some e' \<and>
      rssi e' = - 60 \<and> name e' = ''S1'' \<and>
      manufacturer_id e' = Some 1 \<and> manufacturer_data e' = Some ''aa'') \<and>
   map_of [(''AA'', \<lparr>address = ''AA'', name = ''Scale1'', rssi = - 60, services = [], addr_type = 0,
                  manufacturer_id = None, manufacturer_data = None\<rparr>)] ''AA''
     = Some \<lparr>address = ''AA'', name = ''Scale1'', rssi = - 60, services = [], addr_type = 0,
                  manufacturer_id = None, manufacturer_data = None\<rparr> \<and>
   (\<exists>e'. map_of (dedup_step [(''AA'', \<lparr>address = ''AA'', name = ''Scale1'', rssi = - 60, services = [],
                  addr_type = 0, manufacturer_id = None, manufacturer_data = None\<rparr>)] ''AA'' 0 (- 75)
               \<lparr>ad_name = ''Other'', ad_services = [], ad_mfr_id = Some 343, ad_mfr_data = Some ''0a''\<rparr>) ''AA''
           = Some e' \<and>
         rssi e' = - 60 \<and> name e' = ''Scale1'' \<and>
         manufacturer_id e' = Some 343 \<and> manufacturer_data e' = Some ''0a'')"
proof -
  let ?raw1 = "[0x04, 0xFF, 0x01, 0x00, 0xAA] :: byte list"
  let ?raw2 = "[0x04, 0xFF, 0x02, 0x00, 0xBB, 0x03, 0x09, 0x53, 0x31] :: byte list"
  let ?f1 = "\<lparr>ad_name = [], ad_services = [], ad_mfr_id = Some 1, ad_mfr_data = Some ''aa''\<rparr>"
  let ?f2 = "\<lparr>ad_name = ''S1'', ad_services = [], ad_mfr_id = Some 2, ad_mfr_data = Some ''bb''\<rparr>"
  let ?e = "\<lparr>address = ''AA'', name = ''Scale1'', rssi = - 60, services = [], addr_type = 0,
                  manufacturer_id = None, manufacturer_data = None\<rparr>"
  let ?f = "\<lparr>ad_name = ''Other'', ad_services = [], ad_mfr_id = Some 343, ad_mfr_data = Some ''0a''\<rparr>"
  have p1: "parse_ad ascii_decode ?raw1 = Inr ?f1" by code_simp
  have p2: "parse_ad ascii_decode ?raw2 = Inr ?f2" by code_simp
  have m: "mac_str [0xAA] = ''AA''" by code_simp
  have fresh: "map_of ([] :: seen_map) (mac_str [0xAA]) = None" by simp
  have t1: "truthy (ad_mfr_data ?f1)" by (simp add: truthy_def)
  have a: "map_of [(''AA'', ?e)] ''AA'' = Some ?e" by simp
  have t: "\<not> truthy (manufacturer_data ?e) \<and> truthy (ad_mfr_data ?f)" by (simp add: truthy_def)
  note rule = dedup_merge_rule [where dec = ascii_decode and ?raw1.0 = ?raw1 and ?f1.0 = ?f1
      and ?raw2.0 = ?raw2 and ?f2.0 = ?f2 and ?seen0.0 = "[]" and addr = "[0xAA]" and ?at1.0 = 0
      and ?r1.0 = "- 60" and ?at2.0 = 0 and ?r2.0 = "- 80"
      and seen = "[(''AA'', ?e)]" and mac = "''AA''" and e = ?e and at = 0 and r = "- 75" and f = ?f]
  from rule p1 p2 fresh
  obtain seen' e1 where pair:
    "post_process ascii_decode [] [([0xAA], 0, - 60, ?raw1), ([0xAA], 0, - 80, ?raw2)] = Inr seen'"
    "map fst seen' = map fst ([] :: seen_map) @ [mac_str [0xAA]]"
    "map_of seen' (mac_str [0xAA]) = Some e1"
    "rssi e1 = max (- 60) (- 80)"
    "name e1 = (if ad_name ?f1 = [] \<and> ad_name ?f2 \<noteq> [] then ad_name ?f2 else ad_name ?f1)"
    "(manufacturer_id e1, manufacturer_data e1) =
           (if \<not> truthy (ad_mfr_data ?f1) \<and> truthy (ad_mfr_data ?f2)
            then (ad_mfr_id ?f2, ad_mfr_data ?f2)
            else (ad_mfr_id ?f1, ad_mfr_data ?f1))"
    by blast
  from pair(6) t1 have "manufacturer_id e1 = Some 1 \<and> manufacturer_data e1 = Some ''aa''" by simp
  moreover from pair(4) have "rssi e1 = - 60" by simp
  moreover from pair(5) have "name e1 = ''S1''" by simp
  moreover from pair(2) m have "map fst seen' = [''AA'']" by simp
  moreover from pair(3) m have "map_of seen' ''AA'' = Some e1" by simp
  ultimately have first: "\<exists>seen' e'.
      post_process ascii_decode [] [([0xAA], 0, - 60, ?raw1), ([0xAA], 0, - 80, ?raw2)] = Inr seen' \<and>
      map fst seen' = [''AA''] \<and> map_of seen' ''AA'' = Some e' \<and>
      rssi e' = - 60 \<and> name e' = ''S1'' \<and>
      manufacturer_id e' = Some 1 \<and> manufacturer_data e' = Some ''aa''"
    using pair(1) by (intro exI [of _ seen'] exI [of _ e1]) simp
  from rule a
  obtain e' where e': "map_of (dedup_step [(''AA'', ?e)] ''AA'' 0 (- 75) ?f) ''AA'' = Some e'"
    "rssi e' = max (rssi ?e) (- 75)"
    "name e' = (if name ?e = [] \<and> ad_name ?f \<noteq> [] then ad_name ?f else name ?e)"
    "(manufacturer_id e', manufacturer_data e') =
           (if \<not> truthy (manufacturer_data ?e) \<and> truthy (ad_mfr_data ?f)
            then (ad_mfr_id ?f, ad_mfr_data ?f)
            else (manufacturer_id ?e, manufacturer_data ?e))"
    by blast
  from e'(4) t have "manufacturer_id e' = Some 343 \<and> manufacturer_data e' = Some ''0a''" by simp
  moreover from e'(2) have "rssi e' = - 60" by simp
  moreover from e'(3) have "name e' = ''Scale1''" by simp
  ultimately have second: "\<exists>e'. map_of (dedup_step [(''AA'', ?e)] ''AA'' 0 (- 75) ?f) ''AA'' = Some e' \<and>
         rssi e' = - 60 \<and> name e' = ''Scale1'' \<and>
         manufacturer_id e' = Some 343 \<and> manufacturer_data e' = Some ''0a''"
    using e'(1) by (intro exI [of _ e']) simp
  show ?thesis using p1 p2 fresh first a second by (intro conjI) assumption+
qed

text \<open>
  C5. A scan cycle that returns gives back the filtered records of the deduplicated
  dictionary. A record with an empty name and no manufacturer data is not among them,
  whatever its service list; a record with a non-empty name or with manufacturer data (a hex
  string that is present and not empty, as the code tests it) is among them.
\<close>

theorem noise_filter:
  "(scan dec None events b = (Inr results, b') \<longrightarrow>
      (\<exists>seen. post_process dec [] (collect events) = Inr seen \<and> results = scan_results seen)) \<and>
   (v \<in> snd ` set seen \<and> name v = [] \<and> \<not> truthy (manufacturer_data v)
      \<longrightarrow> v \<notin> set (scan_results seen)) \<and>
   (v \<in> snd ` set seen \<and> (name v \<noteq> [] \<or> truthy (manufacturer_data v))
      \<longrightarrow> v \<in> set (scan_results seen))"
proof (intro conjI impI)
  assume "scan dec None events b = (Inr results, b')"
  then show "\<exists>seen. post_process dec [] (collect events) = Inr seen \<and> results = scan_results seen"
    by (auto simp: scan_def Let_def split: sum.splits)
next
  assume "v \<in> snd ` set seen \<and> name v = [] \<and> \<not> truthy (manufacturer_data v)"
  then show "v \<notin> set (scan_results seen)"
    by (simp add: scan_results_def keep_def)
next
  assume "v \<in> snd ` set seen \<and> (name v \<noteq> [] \<or> truthy (manufacturer_data v))"
  then show "v \<in> set (scan_results seen)"
    by (auto simp: scan_results_def keep_def)
qed

text \<open>The filter at a cycle of two advertisements: the one with a service list only is dropped, the named one is returned.\<close>

theorem noise_filter_witness:
  "scan ascii_decode None noise_events \<lparr>active = False\<rparr> = (Inr [named_entry], \<lparr>active = False\<rparr>) \<and>
   post_process ascii_decode [] (collect noise_events) = Inr [(''11'', noise_entry), (''22'', named_entry)] \<and>
   noise_entry \<in> snd ` set [(''11'', noise_entry), (''22'', named_entry)] \<and>
   name noise_entry = [] \<and> \<not> truthy (manufacturer_data noise_entry) \<and>
   noise_entry \<notin> set (scan_results [(''11'', noise_entry), (''22'', named_entry)]) \<and>
   named_entry \<in> snd ` set [(''11'', noise_entry), (''22'', named_entry)] \<and>
   name named_entry \<noteq> [] \<and>
   named_entry \<in> set (scan_results [(''11'', noise_entry), (''22'', named_entry)])"
proof -
  let ?seen = "[(''11'', noise_entry), (''22'', named_entry)]"
  have a: "scan ascii_decode None noise_events \<lparr>active = False\<rparr> = (Inr [named_entry], \<lparr>active = False\<rparr>)"
    by code_simp
  have p: "post_process ascii_decode [] (collect noise_events) = Inr ?seen"
    by code_simp
  have b: "noise_entry \<in> snd ` set ?seen \<and> name noise_entry = [] \<and> \<not> truthy (manufacturer_data noise_entry)"
    by (simp add: noise_entry_def truthy_def)
  have c: "named_entry \<in> snd ` set ?seen \<and> (name named_entry \<noteq> [] \<or> truthy (manufacturer_data named_entry))"
    by (simp add: named_entry_def)
  have d: "name named_entry \<noteq> []" by (simp add: named_entry_def)
  show ?thesis
    using a p b c d
      noise_filter [of ascii_decode noise_events "\<lparr>active = False\<rparr>" "[named_entry]" "\<lparr>active = False\<rparr>" noise_entry ?seen]
      noise_filter [of ascii_decode noise_events "\<lparr>active = False\<rparr>" "[named_entry]" "\<lparr>active = False\<rparr>" named_entry ?seen]
    by blast
qed

section \<open>Properties of the raw buffer and of the scan cycle\<close>

lemma irq_fold:
  "length rs \<le> MAX_SCAN_ENTRIES \<Longrightarrow>
   foldl (\<lambda>rs (event, data). irq event data rs) rs events =
   rs @ take (MAX_SCAN_ENTRIES - length rs) (scan_result_events events)"
proof (induction events arbitrary: rs)
  case Nil
  show ?case by (simp add: scan_result_events_def)
next
  case (Cons ev events)
  obtain event u addr a r adv where ev: "ev = (event, (u, addr, a, r, adv))"
    by (metis prod_cases5 surj_pair)
  show ?case
  proof (cases "event = 5 \<and> length rs < MAX_SCAN_ENTRIES")
    case True
    then have step: "irq event (u, addr, a, r, adv) rs = rs @ [(addr, a, r, adv)]"
      by (simp add: irq_def)
    have len: "length (rs @ [(addr, a, r, adv)]) \<le> MAX_SCAN_ENTRIES"
      using True by simp
    have sre: "scan_result_events ((event, (u, addr, a, r, adv)) # events)
        = (addr, a, r, adv) # scan_result_events events"
      using True by (simp add: scan_result_events_def)
    have "MAX_SCAN_ENTRIES - length rs = Suc (MAX_SCAN_ENTRIES - length (rs @ [(addr, a, r, adv)]))"
      using True by (simp add: Suc_diff_Suc)
    then show ?thesis
      using Cons.IH [OF len] by (simp add: ev step sre)
  next
    case False
    then have step: "irq event (u, addr, a, r, adv) rs = rs"
      by (auto simp: irq_def)
    show ?thesis
    proof (cases "event = 5")
      case True
      with False Cons.prems have "MAX_SCAN_ENTRIES - length rs = 0" by simp
      then show ?thesis using Cons.IH [OF Cons.prems] by (simp add: ev step)
    next
      case False
      then have "scan_result_events ((event, (u, addr, a, r, adv)) # events) = scan_result_events events"
        by (simp add: scan_result_events_def)
      then show ?thesis using Cons.IH [OF Cons.prems] by (simp add: ev step)
    qed
  qed
qed

lemma collect_take: "collect events = take MAX_SCAN_ENTRIES (scan_result_events events)"
  using irq_fold [of "[]" events] by (simp add: collect_def)

text \<open>
  C6. The raw buffer never holds more than 200 entries, after any number of events; it is
  the first 200 scan-result events, later ones are dropped; and the cycle parses and
  deduplicates these entries only.
\<close>

theorem raw_buffer_cap:
  "length (collect events) \<le> 200 \<and>
   length (collect (take n events)) \<le> 200 \<and>
   collect events = take 200 (scan_result_events events) \<and>
   fst (scan dec None events b) =
     (case post_process dec [] (take 200 (scan_result_events events)) of
        Inl e \<Rightarrow> Inl e
      | Inr seen \<Rightarrow> Inr (scan_results seen))"
proof -
  have c: "\<And>evs. collect evs = take 200 (scan_result_events evs)"
    using collect_take by (simp add: MAX_SCAN_ENTRIES_def)
  have s: "fst (scan dec None events b) =
     (case post_process dec [] (collect events) of
        Inl e \<Rightarrow> Inl e
      | Inr seen \<Rightarrow> Inr (scan_results seen))"
    by (simp add: scan_def Let_def split: sum.splits)
  show ?thesis
    using s by (simp add: c)
qed

text \<open>The cap at 250 scan-result events.\<close>

theorem raw_buffer_cap_witness:
  "length (scan_result_events many_events) = 250 \<and>
   length (collect many_events) \<le> 200 \<and>
   collect many_events = take 200 (scan_result_events many_events)"
proof -
  have "length (scan_result_events many_events) = 250"
    by (simp add: scan_result_events_def many_events_def filter_map comp_def)
  then show ?thesis
    using raw_buffer_cap [of many_events 0 ascii_decode "\<lparr>active = False\<rparr>"] by blast
qed

text \<open>
  C7. The radio is deactivated by the last statements of \<open>scan\<close> only; an exception raised
  while the results are processed leaves \<open>scan\<close> before them. One advertisement with the
  payload \<open>03 FF\<close> makes the cycle end with \<open>IndexError\<close> and the radio active.
\<close>

theorem scan_failure_leaves_radio_active:
  "scan dec None [(5, (0, [0xC8, 0x47, 0x8C, 0x01, 0x02, 0x03], 0, -70, [0x03, 0xFF]))] \<lparr>active = False\<rparr>
     = (Inl IndexError, \<lparr>active = True\<rparr>)"
  by (simp add: scan_def collect_def irq_def MAX_SCAN_ENTRIES_def parse_mfr_no_payload)

text \<open>
  On a normal return the radio is inactive.
\<close>

lemma scan_return_deactivates:
  "scan dec start events b = (Inr results, b') \<Longrightarrow> \<not> active b'"
  by (auto simp: scan_def Let_def split: option.splits sum.splits)

section \<open>Properties of the Connect handler\<close>

lemma busy_wait_eq: "busy_wait env k n b = (b \<and> (\<forall>j<n. env (k + j)))"
proof (induction n arbitrary: k b)
  case 0
  show ?case by simp
next
  case (Suc n)
  have "(\<forall>j<Suc n. env (k + j)) = (env k \<and> (\<forall>j<n. env (Suc k + j)))"
    by (auto simp: less_Suc_eq_0_disj)
  then show ?case using Suc.IH [of "Suc k" "env k"] by auto
qed

text \<open>
  C8, as stated, fails: when \<open>_busy\<close> stays true through the whole wait, the handler returns
  with \<open>scan_paused\<close> false, not true.
\<close>

theorem connect_busy_abort_counterexample:
  "handle_connect calm_world ''ble/esp'' ''{}''
      \<lparr>busy = True, scan_paused = False, char_subscribed = False\<rparr>
   = (None, \<lparr>busy = True, scan_paused = False, char_subscribed = False\<rparr>,
      [Publish ''ble/esp/error'' BUSY_MESSAGE])"
  by (simp add: handle_connect_def busy_wait_eq calm_world_def publish_error_def topic_def)

text \<open>
  C8, amended. If \<open>_busy\<close> is true when the Connect command arrives and after each of the
  60 sleeps of the wait, the handler publishes exactly one Busy message on the error topic,
  calls nothing else (it does not connect), returns normally, and leaves \<open>scan_paused\<close>
  false; \<open>busy\<close> and the subscription flag are as they were.
\<close>

theorem connect_busy_abort:
  assumes "busy st" and "\<forall>k<60. busy_after w k"
  shows "handle_connect w base payload st =
           (None, st\<lparr>scan_paused := False\<rparr>, [Publish (topic base ''error'') BUSY_MESSAGE])"
proof -
  have "busy_wait (busy_after w) 0 60 (busy (st\<lparr>scan_paused := True\<rparr>))"
    using assms by (simp add: busy_wait_eq)
  moreover have "st\<lparr>scan_paused := True, busy := True, scan_paused := False\<rparr> = st\<lparr>scan_paused := False\<rparr>"
    using assms(1) by simp
  ultimately show ?thesis
    by (simp add: handle_connect_def publish_error_def)
qed

text \<open>The abort at a session that was already paused.\<close>

theorem connect_busy_abort_witness:
  "busy \<lparr>busy = True, scan_paused = True, char_subscribed = True\<rparr> \<and>
   busy_after calm_world 0 \<and> busy_after calm_world 59 \<and>
   handle_connect calm_world ''ble/esp'' ''{}'' \<lparr>busy = True, scan_paused = True, char_subscribed = True\<rparr>
     = (None, \<lparr>busy = True, scan_paused = False, char_subscribed = True\<rparr>,
        [Publish (topic ''ble/esp'' ''error'') BUSY_MESSAGE])"
proof -
  have a: "busy \<lparr>busy = True, scan_paused = True, char_subscribed = True\<rparr>" by simp
  have b: "\<forall>k<60. busy_after calm_world k" by (simp add: calm_world_def)
  show ?thesis
    using a b connect_busy_abort [OF a b, of "''ble/esp''" "''{}''"] by simp
qed

text \<open>
  C9, as stated, fails on one path of the handler: when the wait for \<open>_busy\<close> gives up, the
  handler returns with \<open>busy\<close> still true (the flag belongs to the scan in flight).
\<close>

theorem connect_busy_kept_counterexample:
  "busy (fst (snd (handle_connect calm_world ''ble/esp'' ''{}''
      \<lparr>busy = True, scan_paused = False, char_subscribed = False\<rparr>)))"
  by (simp add: handle_connect_def busy_wait_eq calm_world_def)

lemma start_notifies_ok:
  "(\<forall>(u, p) \<in> set chars. ''notify'' \<in> set p \<longrightarrow> start_notify_out w u = None)
   \<Longrightarrow> fst (start_notifies w chars) = None"
  by (induction chars) (auto split: prod.splits)

lemma start_notifies_fail:
  "\<exists>(u, p) \<in> set chars. ''notify'' \<in> set p \<and> start_notify_out w u \<noteq> None \<Longrightarrow>
   \<exists>e l u p. start_notifies w chars = (Some e, l) \<and> (u, p) \<in> set chars \<and>
      ''notify'' \<in> set p \<and> start_notify_out w u = Some e"
proof (induction chars)
  case Nil
  then show ?case by simp
next
  case (Cons c chars)
  obtain u p where c: "c = (u, p)" by (cases c)
  show ?case
  proof (cases "''notify'' \<in> set p \<and> start_notify_out w u \<noteq> None")
    case True
    then obtain e where "start_notify_out w u = Some e" by auto
    with True c show ?thesis by fastforce
  next
    case False
    with Cons.prems c
    have "\<exists>(u, p) \<in> set chars. ''notify'' \<in> set p \<and> start_notify_out w u \<noteq> None"
      by auto
    from Cons.IH [OF this] obtain e l u' p' where r: "start_notifies w chars = (Some e, l)"
      "(u', p') \<in> set chars" "''notify'' \<in> set p'" "start_notify_out w u' = Some e"
      by blast
    have "\<exists>l'. start_notifies w (c # chars) = (Some e, l')"
      using False r(1) c by auto
    with r show ?thesis by fastforce
  qed
qed

lemma handle_connect_after_wait:
  assumes "\<not> busy_wait (busy_after w) 0 60 (busy st)"
  shows "handle_connect w base payload st =
     (case connect_body w base payload (st\<lparr>scan_paused := True, busy := True\<rparr>) of
        (Some e, st3, l) \<Rightarrow> (Some e, st3\<lparr>scan_paused := False, busy := False\<rparr>, l)
      | (None, st3, l) \<Rightarrow> (None, st3\<lparr>busy := False\<rparr>, l))"
  using assms by (simp add: handle_connect_def)

lemma subscribe_chars_done:
  "char_subscribed st \<or> (subscribe_out w (topic base ''write/#'') = None \<and>
      subscribe_out w (topic base ''read/#'') = None)
   \<Longrightarrow> \<exists>l. subscribe_chars w base st = (None, st\<lparr>char_subscribed := True\<rparr>, l)"
  by (auto simp: subscribe_chars_def)

text \<open>
  C9, amended. Once the wait has found \<open>_busy\<close> false, every failure of the sequence is
  propagated with \<open>scan_paused\<close> false and \<open>busy\<close> false: a failure of the payload parse, of
  the teardown of the prior session, of the connection, of the subscription to the write
  or to the read topic, of a notify start, or of the publish of the connected event. And
  whatever the handler does after the wait, it returns or raises with \<open>busy\<close> false, and
  with \<open>scan_paused\<close> false whenever it raises.
\<close>

theorem connect_failure_resumes:
  assumes wait: "\<not> busy_wait (busy_after w) 0 60 (busy st)"
  shows
   "(json_address w payload = Inl e \<longrightarrow> resumed_after (handle_connect w base payload st) e) \<and>
    (json_address w payload = Inr (a, t) \<and> disconnect_out w = Some e
       \<longrightarrow> resumed_after (handle_connect w base payload st) e) \<and>
    (json_address w payload = Inr (a, t) \<and> disconnect_out w = None \<and> connect_out w a t = Inl e
       \<longrightarrow> resumed_after (handle_connect w base payload st) e) \<and>
    (json_address w payload = Inr (a, t) \<and> disconnect_out w = None \<and> connect_out w a t = Inr chars \<and>
     \<not> char_subscribed st \<and> subscribe_out w (topic base ''write/#'') = Some e
       \<longrightarrow> resumed_after (handle_connect w base payload st) e) \<and>
    (json_address w payload = Inr (a, t) \<and> disconnect_out w = None \<and> connect_out w a t = Inr chars \<and>
     \<not> char_subscribed st \<and> subscribe_out w (topic base ''write/#'') = None \<and>
     subscribe_out w (topic base ''read/#'') = Some e
       \<longrightarrow> resumed_after (handle_connect w base payload st) e) \<and>
    (json_address w payload = Inr (a, t) \<and> disconnect_out w = None \<and> connect_out w a t = Inr chars \<and>
     (char_subscribed st \<or> (subscribe_out w (topic base ''write/#'') = None \<and>
                              subscribe_out w (topic base ''read/#'') = None)) \<and>
     (\<exists>(u, p) \<in> set chars. ''notify'' \<in> set p \<and> start_notify_out w u \<noteq> None)
       \<longrightarrow> (\<exists>e' u p. (u, p) \<in> set chars \<and> ''notify'' \<in> set p \<and> start_notify_out w u = Some e' \<and>
              resumed_after (handle_connect w base payload st) e')) \<and>
    (json_address w payload = Inr (a, t) \<and> disconnect_out w = None \<and> connect_out w a t = Inr chars \<and>
     (char_subscribed st \<or> (subscribe_out w (topic base ''write/#'') = None \<and>
                              subscribe_out w (topic base ''read/#'') = None)) \<and>
     (\<forall>(u, p) \<in> set chars. ''notify'' \<in> set p \<longrightarrow> start_notify_out w u = None) \<and>
     publish_out w (topic base ''connected'') (json_dumps w chars) = Some e
       \<longrightarrow> resumed_after (handle_connect w base payload st) e) \<and>
    (\<forall>r st' l. handle_connect w base payload st = (r, st', l)
       \<longrightarrow> \<not> busy st' \<and> (r \<noteq> None \<longrightarrow> \<not> scan_paused st'))"
proof -
  note hc = handle_connect_after_wait [OF wait, of base payload]
  let ?st = "st\<lparr>scan_paused := True, busy := True\<rparr>"
  have c1: "resumed_after (handle_connect w base payload st) e" if "json_address w payload = Inl e"
    using that by (simp add: hc connect_body_def resumed_after_def)
  have c2: "resumed_after (handle_connect w base payload st) e"
    if "json_address w payload = Inr (a, t) \<and> disconnect_out w = Some e"
    using that by (simp add: hc connect_body_def resumed_after_def)
  have c3: "resumed_after (handle_connect w base payload st) e"
    if "json_address w payload = Inr (a, t) \<and> disconnect_out w = None \<and> connect_out w a t = Inl e"
    using that by (simp add: hc connect_body_def resumed_after_def)
  have c4: "resumed_after (handle_connect w base payload st) e"
    if "json_address w payload = Inr (a, t) \<and> disconnect_out w = None \<and> connect_out w a t = Inr chars \<and>
        \<not> char_subscribed st \<and> subscribe_out w (topic base ''write/#'') = Some e"
    using that by (simp add: hc connect_body_def subscribe_chars_def resumed_after_def)
  have c5: "resumed_after (handle_connect w base payload st) e"
    if "json_address w payload = Inr (a, t) \<and> disconnect_out w = None \<and> connect_out w a t = Inr chars \<and>
        \<not> char_subscribed st \<and> subscribe_out w (topic base ''write/#'') = None \<and>
        subscribe_out w (topic base ''read/#'') = Some e"
    using that by (simp add: hc connect_body_def subscribe_chars_def resumed_after_def)
  have c6: "\<exists>e' u p. (u, p) \<in> set chars \<and> ''notify'' \<in> set p \<and> start_notify_out w u = Some e' \<and>
              resumed_after (handle_connect w base payload st) e'"
    if h: "json_address w payload = Inr (a, t) \<and> disconnect_out w = None \<and> connect_out w a t = Inr chars \<and>
     (char_subscribed st \<or> (subscribe_out w (topic base ''write/#'') = None \<and>
                              subscribe_out w (topic base ''read/#'') = None)) \<and>
     (\<exists>(u, p) \<in> set chars. ''notify'' \<in> set p \<and> start_notify_out w u \<noteq> None)"
  proof -
    from h have "char_subscribed ?st \<or> (subscribe_out w (topic base ''write/#'') = None \<and>
        subscribe_out w (topic base ''read/#'') = None)" by simp
    from subscribe_chars_done [OF this] obtain l1 where
      s: "subscribe_chars w base ?st = (None, ?st\<lparr>char_subscribed := True\<rparr>, l1)" by blast
    from h have "\<exists>(u, p) \<in> set chars. ''notify'' \<in> set p \<and> start_notify_out w u \<noteq> None" by simp
    from start_notifies_fail [OF this] obtain e' l2 u p where
      n: "start_notifies w chars = (Some e', l2)" "(u, p) \<in> set chars" "''notify'' \<in> set p"
        "start_notify_out w u = Some e'" by blast
    have "resumed_after (handle_connect w base payload st) e'"
      using h s n(1) by (simp add: hc connect_body_def resumed_after_def)
    with n show ?thesis by blast
  qed
  have c7: "resumed_after (handle_connect w base payload st) e"
    if h: "json_address w payload = Inr (a, t) \<and> disconnect_out w = None \<and> connect_out w a t = Inr chars \<and>
     (char_subscribed st \<or> (subscribe_out w (topic base ''write/#'') = None \<and>
                              subscribe_out w (topic base ''read/#'') = None)) \<and>
     (\<forall>(u, p) \<in> set chars. ''notify'' \<in> set p \<longrightarrow> start_notify_out w u = None) \<and>
     publish_out w (topic base ''connected'') (json_dumps w chars) = Some e"
  proof -
    from h have "char_subscribed ?st \<or> (subscribe_out w (topic base ''write/#'') = None \<and>
        subscribe_out w (topic base ''read/#'') = None)" by simp
    from subscribe_chars_done [OF this] obtain l1 where
      s: "subscribe_chars w base ?st = (None, ?st\<lparr>char_subscribed := True\<rparr>, l1)" by blast
    from h have "\<forall>(u, p) \<in> set chars. ''notify'' \<in> set p \<longrightarrow> start_notify_out w u = None" by simp
    from start_notifies_ok [OF this] obtain l2 where n: "start_notifies w chars = (None, l2)"
      by (metis prod.collapse)
    show ?thesis
      using h s n by (simp add: hc connect_body_def resumed_after_def)
  qed
  have c8: "\<not> busy st' \<and> (r \<noteq> None \<longrightarrow> \<not> scan_paused st')"
    if h: "handle_connect w base payload st = (r, st', l)" for r st' l
  proof -
    obtain r0 st3 l0 where body: "connect_body w base payload ?st = (r0, st3, l0)"
      by (metis prod_cases3)
    show ?thesis using h body by (cases r0) (auto simp: hc)
  qed
  show ?thesis
    using c1 c2 c3 c4 c5 c6 c7 c8 by blast
qed


text \<open>The rollback at seven worlds, one for each call that can fail, and the run in which
  nothing fails.\<close>

theorem connect_failure_resumes_witness:
  "\<not> busy_wait (busy_after released_world) 0 60 (busy idle_state) \<and>
   json_address released_world ''{}'' = Inl KeyError \<and>
   resumed_after (handle_connect released_world ''ble/esp'' ''{}'' idle_state) KeyError \<and>
   disconnect_out teardown_fails = Some OSError \<and>
   resumed_after (handle_connect teardown_fails ''ble/esp'' connect_payload idle_state) OSError \<and>
   connect_out failing_world ''AA:BB:CC:DD:EE:FF'' 0 = Inl OSError \<and>
   resumed_after (handle_connect failing_world ''ble/esp'' connect_payload idle_state) OSError \<and>
   subscribe_out write_subscribe_fails (topic ''ble/esp'' ''write/#'') = Some OSError \<and>
   resumed_after (handle_connect write_subscribe_fails ''ble/esp'' connect_payload idle_state) OSError \<and>
   subscribe_out read_subscribe_fails (topic ''ble/esp'' ''read/#'') = Some OSError \<and>
   resumed_after (handle_connect read_subscribe_fails ''ble/esp'' connect_payload idle_state) OSError \<and>
   start_notify_out notify_fails ''00002a9d00001000800000805f9b34fb'' = Some OSError \<and>
   resumed_after (handle_connect notify_fails ''ble/esp'' connect_payload idle_state) OSError \<and>
   publish_out publish_fails (topic ''ble/esp'' ''connected'') ''{}'' = Some OSError \<and>
   resumed_after (handle_connect publish_fails ''ble/esp'' connect_payload idle_state) OSError \<and>
   handle_connect failing_world ''ble/esp'' connect_payload idle_state
     = (Some OSError, \<lparr>busy = False, scan_paused = False, char_subscribed = False\<rparr>,
        [BridgeDisconnect, BridgeConnect ''AA:BB:CC:DD:EE:FF'' 0]) \<and>
   handle_connect released_world ''ble/esp'' connect_payload idle_state
     = (None, \<lparr>busy = False, scan_paused = True, char_subscribed = True\<rparr>,
        [BridgeDisconnect, BridgeConnect ''AA:BB:CC:DD:EE:FF'' 0,
         Subscribe ''ble/esp/write/#'', Subscribe ''ble/esp/read/#'',
         StartNotify ''00002a9d00001000800000805f9b34fb'',
         Publish ''ble/esp/connected'' ''{}''])"
proof -
  let ?a = "''AA:BB:CC:DD:EE:FF''"
  let ?chars = "[(''00002a9d00001000800000805f9b34fb'', [''notify''])]"
  note defs = released_world_def calm_world_def idle_state_def topic_def
  have e: "\<exists>j::nat. j < 60" by (rule exI [of _ 0]) simp
  have nopay: "''{}'' \<noteq> connect_payload" by (simp add: connect_payload_def)
  have w0: "\<not> busy_wait (busy_after released_world) 0 60 (busy idle_state)"
    using e by (simp add: busy_wait_eq defs)
  have w1: "\<not> busy_wait (busy_after teardown_fails) 0 60 (busy idle_state)"
    using e by (simp add: busy_wait_eq teardown_fails_def defs)
  have w2: "\<not> busy_wait (busy_after failing_world) 0 60 (busy idle_state)"
    using e by (simp add: busy_wait_eq failing_world_def defs)
  have w3: "\<not> busy_wait (busy_after write_subscribe_fails) 0 60 (busy idle_state)"
    using e by (simp add: busy_wait_eq write_subscribe_fails_def defs)
  have w4: "\<not> busy_wait (busy_after read_subscribe_fails) 0 60 (busy idle_state)"
    using e by (simp add: busy_wait_eq read_subscribe_fails_def defs)
  have w5: "\<not> busy_wait (busy_after notify_fails) 0 60 (busy idle_state)"
    using e by (simp add: busy_wait_eq notify_fails_def defs)
  have w6: "\<not> busy_wait (busy_after publish_fails) 0 60 (busy idle_state)"
    using e by (simp add: busy_wait_eq publish_fails_def defs)
  have h0: "json_address released_world ''{}'' = Inl KeyError"
    using nopay by (simp add: defs)
  have r0: "resumed_after (handle_connect released_world ''ble/esp'' ''{}'' idle_state) KeyError"
    using connect_failure_resumes [OF w0, where payload = "''{}''" and e = KeyError and base = "''ble/esp''"]
      h0 by blast
  have h1: "json_address teardown_fails connect_payload = Inr (?a, 0) \<and>
      disconnect_out teardown_fails = Some OSError"
    by (simp add: teardown_fails_def defs)
  have r1: "resumed_after (handle_connect teardown_fails ''ble/esp'' connect_payload idle_state) OSError"
    using connect_failure_resumes [OF w1, where payload = connect_payload and e = OSError
        and base = "''ble/esp''" and a = ?a and t = 0] h1 by blast
  have h2: "json_address failing_world connect_payload = Inr (?a, 0) \<and>
      disconnect_out failing_world = None \<and> connect_out failing_world ?a 0 = Inl OSError"
    by (simp add: failing_world_def defs)
  have r2: "resumed_after (handle_connect failing_world ''ble/esp'' connect_payload idle_state) OSError"
    using connect_failure_resumes [OF w2, where payload = connect_payload and e = OSError
        and base = "''ble/esp''" and a = ?a and t = 0] h2 by blast
  have h3: "json_address write_subscribe_fails connect_payload = Inr (?a, 0) \<and>
      disconnect_out write_subscribe_fails = None \<and>
      connect_out write_subscribe_fails ?a 0 = Inr ?chars \<and>
      \<not> char_subscribed idle_state \<and>
      subscribe_out write_subscribe_fails (topic ''ble/esp'' ''write/#'') = Some OSError"
    by (simp add: write_subscribe_fails_def defs)
  have r3: "resumed_after (handle_connect write_subscribe_fails ''ble/esp'' connect_payload idle_state) OSError"
    using connect_failure_resumes [OF w3, where payload = connect_payload and e = OSError
        and base = "''ble/esp''" and a = ?a and t = 0 and chars = ?chars] h3 by blast
  have h4: "json_address read_subscribe_fails connect_payload = Inr (?a, 0) \<and>
      disconnect_out read_subscribe_fails = None \<and>
      connect_out read_subscribe_fails ?a 0 = Inr ?chars \<and>
      \<not> char_subscribed idle_state \<and>
      subscribe_out read_subscribe_fails (topic ''ble/esp'' ''write/#'') = None \<and>
      subscribe_out read_subscribe_fails (topic ''ble/esp'' ''read/#'') = Some OSError"
    by (simp add: read_subscribe_fails_def defs)
  have r4: "resumed_after (handle_connect read_subscribe_fails ''ble/esp'' connect_payload idle_state) OSError"
    using connect_failure_resumes [OF w4, where payload = connect_payload and e = OSError
        and base = "''ble/esp''" and a = ?a and t = 0 and chars = ?chars] h4 by blast
  have h5: "json_address notify_fails connect_payload = Inr (?a, 0) \<and>
      disconnect_out notify_fails = None \<and>
      connect_out notify_fails ?a 0 = Inr ?chars \<and>
      (char_subscribed idle_state \<or> (subscribe_out notify_fails (topic ''ble/esp'' ''write/#'') = None \<and>
                              subscribe_out notify_fails (topic ''ble/esp'' ''read/#'') = None)) \<and>
      (\<exists>(u, p) \<in> set ?chars. ''notify'' \<in> set p \<and> start_notify_out notify_fails u \<noteq> None)"
    by (simp add: notify_fails_def defs)
  have n5: "start_notify_out notify_fails u = Some e' \<Longrightarrow> e' = OSError" for u e'
    by (simp add: notify_fails_def defs)
  have "\<exists>e' u p. (u, p) \<in> set ?chars \<and> ''notify'' \<in> set p \<and> start_notify_out notify_fails u = Some e' \<and>
      resumed_after (handle_connect notify_fails ''ble/esp'' connect_payload idle_state) e'"
    using connect_failure_resumes [OF w5, where payload = connect_payload
        and base = "''ble/esp''" and a = ?a and t = 0 and chars = ?chars] h5 by blast
  then have r5: "resumed_after (handle_connect notify_fails ''ble/esp'' connect_payload idle_state) OSError"
    using n5 by blast
  have h6: "json_address publish_fails connect_payload = Inr (?a, 0) \<and>
      disconnect_out publish_fails = None \<and>
      connect_out publish_fails ?a 0 = Inr ?chars \<and>
      (char_subscribed idle_state \<or> (subscribe_out publish_fails (topic ''ble/esp'' ''write/#'') = None \<and>
                              subscribe_out publish_fails (topic ''ble/esp'' ''read/#'') = None)) \<and>
      (\<forall>(u, p) \<in> set ?chars. ''notify'' \<in> set p \<longrightarrow> start_notify_out publish_fails u = None) \<and>
      publish_out publish_fails (topic ''ble/esp'' ''connected'') (json_dumps publish_fails ?chars) = Some OSError"
    by (simp add: publish_fails_def defs)
  have r6: "resumed_after (handle_connect publish_fails ''ble/esp'' connect_payload idle_state) OSError"
    using connect_failure_resumes [OF w6, where payload = connect_payload and e = OSError
        and base = "''ble/esp''" and a = ?a and t = 0 and chars = ?chars] h6 by blast
  have v2: "handle_connect failing_world ''ble/esp'' connect_payload idle_state
     = (Some OSError, \<lparr>busy = False, scan_paused = False, char_subscribed = False\<rparr>,
        [BridgeDisconnect, BridgeConnect ''AA:BB:CC:DD:EE:FF'' 0])"
    by code_simp
  have v0: "handle_connect released_world ''ble/esp'' connect_payload idle_state
     = (None, \<lparr>busy = False, scan_paused = True, char_subscribed = True\<rparr>,
        [BridgeDisconnect, BridgeConnect ''AA:BB:CC:DD:EE:FF'' 0,
         Subscribe ''ble/esp/write/#'', Subscribe ''ble/esp/read/#'',
         StartNotify ''00002a9d00001000800000805f9b34fb'',
         Publish ''ble/esp/connected'' ''{}''])"
    by code_simp
  have s1: "disconnect_out teardown_fails = Some OSError" using h1 by simp
  have s2: "connect_out failing_world ''AA:BB:CC:DD:EE:FF'' 0 = Inl OSError" using h2 by simp
  have s3: "subscribe_out write_subscribe_fails (topic ''ble/esp'' ''write/#'') = Some OSError"
    using h3 by simp
  have s4: "subscribe_out read_subscribe_fails (topic ''ble/esp'' ''read/#'') = Some OSError"
    using h4 by simp
  have s5: "start_notify_out notify_fails ''00002a9d00001000800000805f9b34fb'' = Some OSError"
    by (simp add: notify_fails_def defs)
  have s6: "publish_out publish_fails (topic ''ble/esp'' ''connected'') ''{}'' = Some OSError"
    by (simp add: publish_fails_def defs)
  show ?thesis
    using w0 h0 r0 s1 r1 s2 r2 s3 r3 s4 r4 s5 r5 s6 r6 v2 v0
    by (intro conjI) assumption+
qed

section \<open>Properties of the command dispatch\<close>

lemma read_topic_branches:
  assumes "startswith t (topic base ''read/'')"
  shows "t \<noteq> topic base ''connect''" "t \<noteq> topic base ''disconnect''"
    "\<not> startswith t (topic base ''write/'')"
proof -
  from assms obtain rest where t: "t = base @ ''/read/'' @ rest"
    unfolding startswith_def topic_def prefix_def by auto
  show "t \<noteq> topic base ''connect''" by (simp add: t topic_def)
  show "t \<noteq> topic base ''disconnect''" by (simp add: t topic_def)
  show "\<not> startswith t (topic base ''write/'')"
    by (simp add: t topic_def startswith_def)
qed

lemma str_contains_append: "str_contains sub (a @ sub)"
proof (induction a)
  case Nil
  show ?case by (cases sub) simp_all
next
  case (Cons c a)
  then show ?case by simp
qed

text \<open>
  C10. A message whose topic starts with the \<open>read/\<close> prefix and whose remainder contains
  \<open>/response\<close> changes no flag and causes no call at all: no read, no publish. The topic
  on which \<open>handle_read\<close> publishes, \<open>read/{uuid}/response\<close>, is such a topic for every uuid.
\<close>

theorem read_echo_guard:
  "(startswith t (topic base ''read/'') \<and>
    str_contains ''/response'' (drop (length (topic base ''read/'')) t)
      \<longrightarrow> dispatch w base (t, msg) st = (st, [])) \<and>
   dispatch w base (topic base (''read/'' @ uuid_str @ ''/response''), msg) st = (st, [])"
proof -
  have gen: "dispatch w base (t, msg) st = (st, [])"
    if a: "startswith t (topic base ''read/'')"
      and b: "str_contains ''/response'' (drop (length (topic base ''read/'')) t)" for t
    using read_topic_branches [OF a] a b by (simp add: dispatch_def)
  let ?t = "topic base (''read/'' @ uuid_str @ ''/response'')"
  have a: "startswith ?t (topic base ''read/'')"
    by (simp add: startswith_def topic_def)
  have "drop (length (topic base ''read/'')) ?t = uuid_str @ ''/response''"
    by (simp add: topic_def)
  then have b: "str_contains ''/response'' (drop (length (topic base ''read/'')) ?t)"
    using str_contains_append [of "''/response''" uuid_str] by simp
  show ?thesis using gen [OF a b] gen by blast
qed

text \<open>The guard at an echoed response topic with a further segment.\<close>

theorem read_echo_guard_witness:
  "startswith ''ble/esp/read/2a9d/response/x'' (topic ''ble/esp'' ''read/'') \<and>
   str_contains ''/response'' (drop (length (topic ''ble/esp'' ''read/'')) ''ble/esp/read/2a9d/response/x'') \<and>
   dispatch calm_world ''ble/esp'' (''ble/esp/read/2a9d/response/x'', ''v'')
     \<lparr>busy = False, scan_paused = True, char_subscribed = True\<rparr>
     = (\<lparr>busy = False, scan_paused = True, char_subscribed = True\<rparr>, [])"
proof -
  have a: "startswith ''ble/esp/read/2a9d/response/x'' (topic ''ble/esp'' ''read/'')"
    by (simp add: startswith_def topic_def)
  have b: "str_contains ''/response'' (drop (length (topic ''ble/esp'' ''read/'')) ''ble/esp/read/2a9d/response/x'')"
    by (simp add: topic_def)
  show ?thesis
    using a b read_echo_guard [of "''ble/esp/read/2a9d/response/x''" "''ble/esp''" calm_world "''v''"
        "\<lparr>busy = False, scan_paused = True, char_subscribed = True\<rparr>"]
    by blast
qed

end
